theory Spec2Isabelle
  imports Main "HOL-Library.Word"
begin

section \<open>Resources (resource.go)\<close>

text \<open>
  Go's \<open>int\<close> is a 64-bit two's complement integer: \<open>64 word\<close>, compared as signed.
  A \<open>resourceVectorPool\<close> is its \<open>resources\<close> slice (the mutex orders concurrent calls and
  is not modelled; every operation here runs to completion). Pools are shared between
  handles and schedulers, so they live in a store indexed by address; \<open>brk\<close> is the next
  unused address.
\<close>

type_synonym resourceVectorPool = "64 word list"

record store =
  pools :: "nat \<Rightarrow> resourceVectorPool"
  brk :: nat

text \<open>
  \<open>resourceVector\<close>: \<open>pool\<close> is the back-reference (\<open>None\<close> is Go's nil). A handle is owned
  by one holder, so the methods that mutate it take it and give it back updated.
\<close>

record resourceVector =
  pool :: "nat option"
  resources :: "64 word list"

definition NewResourceVectorRequest :: "64 word list \<Rightarrow> resourceVector" where
  "NewResourceVectorRequest res = \<lparr>pool = None, resources = res\<rparr>"

text \<open>
  \<open>NewResourceVectorPool\<close> keeps the slice it is given. Here the new pool holds counts of
  its own: one slice handed to two pools, or written by the caller afterwards, is not
  covered.
\<close>

definition NewResourceVectorPool :: "64 word list \<Rightarrow> store \<Rightarrow> nat \<times> store" where
  "NewResourceVectorPool res st =
     (brk st, st\<lparr>pools := (pools st)(brk st := res), brk := Suc (brk st)\<rparr>)"

text \<open>The first loop of \<open>Request\<close>: does some component of the request exceed the pool's?\<close>

fun exceeds :: "64 word list \<Rightarrow> 64 word list \<Rightarrow> bool" where
  "exceeds (v # vs) (r # rs) = (if r <s v then True else exceeds vs rs)"
| "exceeds _ _ = False"

text \<open>The second loop of \<open>Request\<close>: \<open>r.resources[i] -= v.resources[i]\<close>.\<close>

fun sub_each :: "64 word list \<Rightarrow> 64 word list \<Rightarrow> 64 word list" where
  "sub_each (r # rs) (v # vs) = (r - v) # sub_each rs vs"
| "sub_each rs _ = rs"

text \<open>The loop of \<open>add\<close>: \<open>r.resources[i] += v.resources[i]\<close>.\<close>

fun add_each :: "64 word list \<Rightarrow> 64 word list \<Rightarrow> 64 word list" where
  "add_each (r # rs) (v # vs) = (r + v) # add_each rs vs"
| "add_each rs _ = rs"

text \<open>
  \<open>Request\<close> reads only \<open>v.resources\<close> of the request it is given and keeps no reference
  to it; the handle it returns is a new object.
\<close>

definition Request :: "nat \<Rightarrow> resourceVector \<Rightarrow> store \<Rightarrow> resourceVector option \<times> store" where
  "Request p v st =
     (if length (resources v) \<noteq> length (pools st p) then (None, st)
      else if exceeds (resources v) (pools st p) then (None, st)
      else (Some \<lparr>pool = Some p, resources = resources v\<rparr>,
            st\<lparr>pools := (pools st)(p := sub_each (pools st p) (resources v))\<rparr>))"

definition add :: "nat \<Rightarrow> resourceVector \<Rightarrow> store \<Rightarrow> bool \<times> store" where
  "add p v st =
     (if length (pools st p) \<noteq> length (resources v) then (False, st)
      else (True, st\<lparr>pools := (pools st)(p := add_each (pools st p) (resources v))\<rparr>))"

text \<open>\<open>Return\<close> drops the result of \<open>add\<close>.\<close>

definition Return :: "resourceVector \<Rightarrow> store \<Rightarrow> bool \<times> resourceVector \<times> store" where
  "Return r st =
     (case pool r of
        None \<Rightarrow> (False, r, st)
      | Some p \<Rightarrow> (True, r\<lparr>pool := None\<rparr>, snd (add p r st)))"

text \<open>What the pool operations can make of a store: one \<open>Request\<close> or one \<open>Return\<close>.\<close>

inductive pool_step :: "store \<Rightarrow> store \<Rightarrow> bool" where
  step_Request: "Request p v st = (g, st') \<Longrightarrow> pool_step st st'"
| step_Return: "Return r st = (b, r', st') \<Longrightarrow> pool_step st st'"

section \<open>Tasks and the scheduler interface (scheduler.go)\<close>

text \<open>A \<open>Task\<close> is anything with an \<open>Id()\<close>: an identifier and a payload the library never reads.\<close>

datatype task = Task (Id_of: string) (payload: int)

datatype ScheduledTask =
  defaultScheduledTask task
| resourceTask task resourceVector

fun Task_of :: "ScheduledTask \<Rightarrow> task" where
  "Task_of (defaultScheduledTask t) = t"
| "Task_of (resourceTask t r) = t"

fun Close :: "ScheduledTask \<Rightarrow> store \<Rightarrow> ScheduledTask \<times> store" where
  "Close (defaultScheduledTask t) st = (defaultScheduledTask t, st)"
| "Close (resourceTask t r) st =
     (case Return r st of (b, r', st') \<Rightarrow> (resourceTask t r', st'))"

text \<open>
  The \<open>Scheduler\<close> interface, as the record of its methods over the state \<open>'s\<close> of the
  implementing type. \<open>Next\<close> can reach a pool; \<open>Put\<close> can run a factory, which can create one.
\<close>

record 's Scheduler =
  Contains :: "'s \<Rightarrow> task \<Rightarrow> bool"
  Put :: "'s \<Rightarrow> task list \<Rightarrow> store \<Rightarrow> 's \<times> store"
  Next :: "'s \<Rightarrow> store \<Rightarrow> ScheduledTask option \<times> 's \<times> store"
  Size :: "'s \<Rightarrow> int"
  Remove :: "'s \<Rightarrow> string \<Rightarrow> task option \<times> 's"

section \<open>FifoScheduler\<close>

record FifoScheduler =
  elements :: "task list"
  elementMap :: "string set"
  maxUnusedSliceSpace :: "8 word"
  unusedSliceCount :: "8 word"

definition NewFifoScheduler :: FifoScheduler where
  "NewFifoScheduler =
     \<lparr>elements = [], elementMap = {}, maxUnusedSliceSpace = 16, unusedSliceCount = 0\<rparr>"

definition FifoScheduler_Contains :: "FifoScheduler \<Rightarrow> task \<Rightarrow> bool" where
  "FifoScheduler_Contains f t = (Id_of t \<in> elementMap f)"

fun FifoScheduler_Put_loop :: "FifoScheduler \<Rightarrow> task list \<Rightarrow> FifoScheduler" where
  "FifoScheduler_Put_loop f [] = f"
| "FifoScheduler_Put_loop f (t # ts) =
     FifoScheduler_Put_loop
       (if Id_of t \<in> elementMap f then f
        else f\<lparr>elements := elements f @ [t],
               unusedSliceCount := unusedSliceCount f + 1,
               elementMap := insert (Id_of t) (elementMap f)\<rparr>) ts"

text \<open>The reallocation copies \<open>elements\<close> into a slice of the same length: the same list.\<close>

definition FifoScheduler_Put :: "FifoScheduler \<Rightarrow> task list \<Rightarrow> FifoScheduler" where
  "FifoScheduler_Put f tasks =
     (let f' = FifoScheduler_Put_loop f tasks
      in if maxUnusedSliceSpace f' \<le> unusedSliceCount f'
         then f'\<lparr>unusedSliceCount := 0\<rparr> else f')"

definition FifoScheduler_Next :: "FifoScheduler \<Rightarrow> ScheduledTask option \<times> FifoScheduler" where
  "FifoScheduler_Next f =
     (case elements f of
        [] \<Rightarrow> (None, f)
      | s # rest \<Rightarrow>
          (Some (defaultScheduledTask s),
           f\<lparr>elements := rest, elementMap := elementMap f - {Id_of s}\<rparr>))"

text \<open>The scan of \<open>Remove\<close>: the first element with the identifier, and the slice without it.\<close>

fun scan_remove :: "string \<Rightarrow> task list \<Rightarrow> task option \<times> task list" where
  "scan_remove i [] = (None, [])"
| "scan_remove i (x # xs) =
     (if Id_of x = i then (Some x, xs)
      else (case scan_remove i xs of (r, xs') \<Rightarrow> (r, x # xs')))"

definition FifoScheduler_Remove :: "FifoScheduler \<Rightarrow> string \<Rightarrow> task option \<times> FifoScheduler" where
  "FifoScheduler_Remove f i =
     (case scan_remove i (elements f) of
        (None, es) \<Rightarrow> (None, f)
      | (Some t, es) \<Rightarrow> (Some t, f\<lparr>elements := es, elementMap := elementMap f - {Id_of t}\<rparr>))"

definition FifoScheduler_Size :: "FifoScheduler \<Rightarrow> int" where
  "FifoScheduler_Size f = int (length (elements f))"

definition FifoScheduler_ops :: "FifoScheduler Scheduler" where
  "FifoScheduler_ops =
     \<lparr>Contains = FifoScheduler_Contains,
      Put = (\<lambda>f ts st. (FifoScheduler_Put f ts, st)),
      Next = (\<lambda>f st. case FifoScheduler_Next f of (r, f') \<Rightarrow> (r, f', st)),
      Size = FifoScheduler_Size,
      Remove = FifoScheduler_Remove\<rparr>"


section \<open>PartitionedScheduler\<close>

type_synonym 's SchedulerFactory = "store \<Rightarrow> 's \<times> store"

type_synonym 's Partitioner = "task \<Rightarrow> string \<times> 64 word \<times> 's SchedulerFactory"

text \<open>
  \<open>pvalue\<close> is the field \<open>value\<close>. \<open>pos\<close> is an \<open>int\<close> in the source that only ever holds
  \<open>0\<close>, a remainder modulo the number of partitions, or that number minus one: a \<open>nat\<close>.
\<close>

record 's partition =
  key :: string
  pvalue :: 's
  cache :: "string set"

record 's priorityIterator =
  priority :: "64 word"
  partitions :: "'s partition list"
  pos :: nat

record 's PartitionedScheduler =
  partitioner :: "'s Partitioner"
  prioritizedPartitions :: "'s priorityIterator list"

definition NewPartitionedScheduler :: "'s Partitioner \<Rightarrow> 's PartitionedScheduler" where
  "NewPartitionedScheduler p = \<lparr>partitioner = p, prioritizedPartitions = []\<rparr>"

definition PartitionedScheduler_Contains :: "'s PartitionedScheduler \<Rightarrow> task \<Rightarrow> bool" where
  "PartitionedScheduler_Contains p t =
     list_ex (\<lambda>pi. list_ex (\<lambda>part. Id_of t \<in> cache part) (partitions pi))
       (prioritizedPartitions p)"

definition newIter :: "64 word \<Rightarrow> 's priorityIterator" where
  "newIter pri = \<lparr>priority = pri, partitions = [], pos = 0\<rparr>"

text \<open>
  The first loop of \<open>Put\<close> with the \<open>iter == nil\<close> case after it: the levels, with a new
  one where the source inserts or appends it, and the index of \<open>iter\<close> among them.
\<close>

fun find_iter :: "64 word \<Rightarrow> 's priorityIterator list \<Rightarrow> 's priorityIterator list \<times> nat" where
  "find_iter pri [] = ([newIter pri], 0)"
| "find_iter pri (pi # rest) =
     (if priority pi = pri then (pi # rest, 0)
      else if priority pi < pri then (newIter pri # pi # rest, 0)
      else (case find_iter pri rest of (rest', i) \<Rightarrow> (pi # rest', Suc i)))"

text \<open>
  The second loop of \<open>Put\<close>, with \<open>n\<close> iterations left: the cursor where it stops, and
  whether it stopped on the key (\<open>idx \<noteq> -1\<close>).
\<close>

fun find_key :: "string \<Rightarrow> 's partition list \<Rightarrow> nat \<Rightarrow> nat \<Rightarrow> nat \<times> bool" where
  "find_key k parts ps 0 = (ps, False)"
| "find_key k parts ps (Suc n) =
     (let ps' = (ps + 1) mod length parts
      in if key (parts ! ps') = k then (ps', True) else find_key k parts ps' n)"

definition iter_Put ::
  "'s Scheduler \<Rightarrow> string \<Rightarrow> 's SchedulerFactory \<Rightarrow> task \<Rightarrow> 's priorityIterator \<Rightarrow> store
    \<Rightarrow> 's priorityIterator \<times> store" where
  "iter_Put ops k factory t iter st =
     (case find_key k (partitions iter) (pos iter) (length (partitions iter)) of
        (ps, found) \<Rightarrow>
          (case (if found then (iter\<lparr>pos := ps\<rparr>, st)
                 else (case factory st of (s, st') \<Rightarrow>
                   (iter\<lparr>partitions := partitions iter @ [\<lparr>key = k, pvalue = s, cache = {}\<rparr>],
                         pos := length (partitions iter)\<rparr>, st'))) of
             (iter1, st1) \<Rightarrow>
               (let part = partitions iter1 ! pos iter1;
                    part1 = part\<lparr>cache := insert (Id_of t) (cache part)\<rparr>
                in (case Put ops (pvalue part1) [t] st1 of
                      (s', st2) \<Rightarrow>
                        (iter1\<lparr>partitions := (partitions iter1)[pos iter1 := part1\<lparr>pvalue := s'\<rparr>]\<rparr>,
                         st2)))))"

definition PartitionedScheduler_Put1 ::
  "'s Scheduler \<Rightarrow> 's PartitionedScheduler \<Rightarrow> task \<Rightarrow> store \<Rightarrow> 's PartitionedScheduler \<times> store" where
  "PartitionedScheduler_Put1 ops p t st =
     (if PartitionedScheduler_Contains p t then (p, st)
      else (case partitioner p t of
              (k, pri, factory) \<Rightarrow>
                (case find_iter pri (prioritizedPartitions p) of
                   (levels, i) \<Rightarrow>
                     (case iter_Put ops k factory t (levels ! i) st of
                        (iter', st') \<Rightarrow> (p\<lparr>prioritizedPartitions := levels[i := iter']\<rparr>, st')))))"

fun PartitionedScheduler_Put ::
  "'s Scheduler \<Rightarrow> 's PartitionedScheduler \<Rightarrow> task list \<Rightarrow> store \<Rightarrow> 's PartitionedScheduler \<times> store" where
  "PartitionedScheduler_Put ops p [] st = (p, st)"
| "PartitionedScheduler_Put ops p (t # ts) st =
     (case PartitionedScheduler_Put1 ops p t st of
        (p', st') \<Rightarrow> PartitionedScheduler_Put ops p' ts st')"

text \<open>
  The inner loop of \<open>Next\<close> on one level, at iteration \<open>i\<close> with \<open>n\<close> iterations left.
  A partition's \<open>Next\<close> may change that partition even when it returns nothing.
\<close>

fun probe ::
  "'s Scheduler \<Rightarrow> 's priorityIterator \<Rightarrow> nat \<Rightarrow> nat \<Rightarrow> store
    \<Rightarrow> ScheduledTask option \<times> 's priorityIterator \<times> store" where
  "probe ops pi i 0 st = (None, pi, st)"
| "probe ops pi i (Suc n) st =
     (let idx = (pos pi + i) mod length (partitions pi);
          part = partitions pi ! idx
      in (case Next ops (pvalue part) st of
            (None, s', st') \<Rightarrow>
              probe ops (pi\<lparr>partitions := (partitions pi)[idx := part\<lparr>pvalue := s'\<rparr>]\<rparr>)
                (Suc i) n st'
          | (Some t, s', st') \<Rightarrow>
              (Some t,
               pi\<lparr>partitions :=
                    (partitions pi)[idx := part\<lparr>pvalue := s',
                                                cache := cache part - {Id_of (Task_of t)}\<rparr>],
                  pos := (pos pi + i + 1) mod length (partitions pi)\<rparr>,
               st')))"

definition iter_Next ::
  "'s Scheduler \<Rightarrow> 's priorityIterator \<Rightarrow> store
    \<Rightarrow> ScheduledTask option \<times> 's priorityIterator \<times> store" where
  "iter_Next ops pi st = probe ops pi 0 (length (partitions pi)) st"

text \<open>The outer loop of \<open>Next\<close>, over the levels in their order.\<close>

fun Next_levels ::
  "'s Scheduler \<Rightarrow> 's priorityIterator list \<Rightarrow> store
    \<Rightarrow> ScheduledTask option \<times> 's priorityIterator list \<times> store" where
  "Next_levels ops [] st = (None, [], st)"
| "Next_levels ops (pi # rest) st =
     (case iter_Next ops pi st of
        (Some t, pi', st') \<Rightarrow> (Some t, pi' # rest, st')
      | (None, pi', st') \<Rightarrow>
          (case Next_levels ops rest st' of (r, rest', st'') \<Rightarrow> (r, pi' # rest', st'')))"

definition PartitionedScheduler_Next ::
  "'s Scheduler \<Rightarrow> 's PartitionedScheduler \<Rightarrow> store
    \<Rightarrow> ScheduledTask option \<times> 's PartitionedScheduler \<times> store" where
  "PartitionedScheduler_Next ops p st =
     (case Next_levels ops (prioritizedPartitions p) st of
        (r, levels, st') \<Rightarrow> (r, p\<lparr>prioritizedPartitions := levels\<rparr>, st'))"

fun Remove_parts ::
  "'s Scheduler \<Rightarrow> string \<Rightarrow> 's partition list \<Rightarrow> task option \<times> 's partition list" where
  "Remove_parts ops i [] = (None, [])"
| "Remove_parts ops i (prt # rest) =
     (case Remove ops (pvalue prt) i of
        (Some t, s') \<Rightarrow> (Some t, prt\<lparr>pvalue := s', cache := cache prt - {i}\<rparr> # rest)
      | (None, s') \<Rightarrow>
          (case Remove_parts ops i rest of (r, rest') \<Rightarrow> (r, prt\<lparr>pvalue := s'\<rparr> # rest')))"

fun Remove_levels ::
  "'s Scheduler \<Rightarrow> string \<Rightarrow> 's priorityIterator list \<Rightarrow> task option \<times> 's priorityIterator list" where
  "Remove_levels ops i [] = (None, [])"
| "Remove_levels ops i (pri # rest) =
     (case Remove_parts ops i (partitions pri) of
        (Some t, parts) \<Rightarrow> (Some t, pri\<lparr>partitions := parts\<rparr> # rest)
      | (None, parts) \<Rightarrow>
          (case Remove_levels ops i rest of
             (r, rest') \<Rightarrow> (r, pri\<lparr>partitions := parts\<rparr> # rest')))"

definition PartitionedScheduler_Remove ::
  "'s Scheduler \<Rightarrow> 's PartitionedScheduler \<Rightarrow> string \<Rightarrow> task option \<times> 's PartitionedScheduler" where
  "PartitionedScheduler_Remove ops p i =
     (case Remove_levels ops i (prioritizedPartitions p) of
        (r, levels) \<Rightarrow> (r, p\<lparr>prioritizedPartitions := levels\<rparr>))"

definition PartitionedScheduler_Size :: "'s Scheduler \<Rightarrow> 's PartitionedScheduler \<Rightarrow> int" where
  "PartitionedScheduler_Size ops p =
     (\<Sum>pri \<leftarrow> prioritizedPartitions p. \<Sum>prt \<leftarrow> partitions pri. Size ops (pvalue prt))"

definition PartitionedScheduler_ops :: "'s Scheduler \<Rightarrow> 's PartitionedScheduler Scheduler" where
  "PartitionedScheduler_ops ops =
     \<lparr>Contains = PartitionedScheduler_Contains,
      Put = PartitionedScheduler_Put ops,
      Next = PartitionedScheduler_Next ops,
      Size = PartitionedScheduler_Size ops,
      Remove = PartitionedScheduler_Remove ops\<rparr>"

section \<open>ResourceManagedScheduler\<close>

text \<open>
  \<open>rpool\<close> is the field \<open>pool\<close>: the address of the scheduler's \<open>resourceVectorPool\<close>, the one
  implementation of \<open>ResourcePool\<close>.
\<close>

record 's ResourceManagedScheduler =
  waiting :: "task option"
  underlying :: 's
  rpool :: nat
  resourceCalculator :: "task \<Rightarrow> resourceVector"

definition NewResourceManagedScheduler ::
  "'s \<Rightarrow> nat \<Rightarrow> (task \<Rightarrow> resourceVector) \<Rightarrow> 's ResourceManagedScheduler" where
  "NewResourceManagedScheduler u p calc =
     \<lparr>waiting = None, underlying = u, rpool = p, resourceCalculator = calc\<rparr>"

definition ResourceManagedScheduler_Contains ::
  "'s Scheduler \<Rightarrow> 's ResourceManagedScheduler \<Rightarrow> task \<Rightarrow> bool" where
  "ResourceManagedScheduler_Contains ops r t =
     ((case waiting r of None \<Rightarrow> False | Some w \<Rightarrow> Id_of w = Id_of t)
      \<or> Contains ops (underlying r) t)"

definition ResourceManagedScheduler_Put ::
  "'s Scheduler \<Rightarrow> 's ResourceManagedScheduler \<Rightarrow> task list \<Rightarrow> store
    \<Rightarrow> 's ResourceManagedScheduler \<times> store" where
  "ResourceManagedScheduler_Put ops r tasks st =
     (case Put ops (underlying r) tasks st of (u', st') \<Rightarrow> (r\<lparr>underlying := u'\<rparr>, st'))"

definition ResourceManagedScheduler_Next ::
  "'s Scheduler \<Rightarrow> 's ResourceManagedScheduler \<Rightarrow> store
    \<Rightarrow> ScheduledTask option \<times> 's ResourceManagedScheduler \<times> store" where
  "ResourceManagedScheduler_Next ops r st =
     (case waiting r of
        Some w \<Rightarrow>
          (case Request (rpool r) (resourceCalculator r w) st of
             (None, st') \<Rightarrow> (None, r, st')
           | (Some allocated, st') \<Rightarrow>
               (Some (resourceTask w allocated), r\<lparr>waiting := None\<rparr>, st'))
      | None \<Rightarrow>
          (case Next ops (underlying r) st of
             (None, u', st') \<Rightarrow> (None, r\<lparr>underlying := u'\<rparr>, st')
           | (Some nxt, u', st') \<Rightarrow>
               (case Request (rpool r) (resourceCalculator r (Task_of nxt)) st' of
                  (None, st'') \<Rightarrow>
                    (None, r\<lparr>underlying := u', waiting := Some (Task_of nxt)\<rparr>, st'')
                | (Some allocated, st'') \<Rightarrow>
                    (Some (resourceTask (Task_of nxt) allocated), r\<lparr>underlying := u'\<rparr>, st''))))"

definition ResourceManagedScheduler_Remove ::
  "'s Scheduler \<Rightarrow> 's ResourceManagedScheduler \<Rightarrow> string
    \<Rightarrow> task option \<times> 's ResourceManagedScheduler" where
  "ResourceManagedScheduler_Remove ops r i =
     (if (case waiting r of None \<Rightarrow> False | Some w \<Rightarrow> Id_of w = i) then (waiting r, r)
      else (case Remove ops (underlying r) i of (t, u') \<Rightarrow> (t, r\<lparr>underlying := u'\<rparr>)))"

definition ResourceManagedScheduler_Size :: "'s Scheduler \<Rightarrow> 's ResourceManagedScheduler \<Rightarrow> int" where
  "ResourceManagedScheduler_Size ops r =
     (case waiting r of
        None \<Rightarrow> Size ops (underlying r)
      | Some w \<Rightarrow> 1 + Size ops (underlying r))"

definition ResourceManagedScheduler_ops ::
  "'s Scheduler \<Rightarrow> 's ResourceManagedScheduler Scheduler" where
  "ResourceManagedScheduler_ops ops =
     \<lparr>Contains = ResourceManagedScheduler_Contains ops,
      Put = ResourceManagedScheduler_Put ops,
      Next = ResourceManagedScheduler_Next ops,
      Size = ResourceManagedScheduler_Size ops,
      Remove = ResourceManagedScheduler_Remove ops\<rparr>"

text \<open>\<open>n\<close> calls of \<open>Next\<close> in a row on a resource-managed scheduler.\<close>

fun ResourceManagedScheduler_Nexts ::
  "'s Scheduler \<Rightarrow> nat \<Rightarrow> 's ResourceManagedScheduler \<Rightarrow> store
    \<Rightarrow> ScheduledTask option list \<times> 's ResourceManagedScheduler \<times> store" where
  "ResourceManagedScheduler_Nexts ops 0 r st = ([], r, st)"
| "ResourceManagedScheduler_Nexts ops (Suc n) r st =
     (case ResourceManagedScheduler_Next ops r st of
        (x, r', st') \<Rightarrow>
          (case ResourceManagedScheduler_Nexts ops n r' st' of
             (xs, r'', st'') \<Rightarrow> (x # xs, r'', st'')))"

text \<open>\<open>n\<close> calls of \<open>Next\<close> in a row on a partitioned scheduler.\<close>

fun PartitionedScheduler_Nexts ::
  "'s Scheduler \<Rightarrow> nat \<Rightarrow> 's PartitionedScheduler \<Rightarrow> store
    \<Rightarrow> ScheduledTask option list \<times> 's PartitionedScheduler \<times> store" where
  "PartitionedScheduler_Nexts ops 0 p st = ([], p, st)"
| "PartitionedScheduler_Nexts ops (Suc n) p st =
     (case PartitionedScheduler_Next ops p st of
        (x, p', st') \<Rightarrow>
          (case PartitionedScheduler_Nexts ops n p' st' of
             (xs, p'', st'') \<Rightarrow> (x # xs, p'', st'')))"


text \<open>
  A run of operations on a partitioned scheduler, from the left: the argument list of
  one \<open>Put\<close> call, a \<open>Next\<close> (its result dropped), a \<open>Remove\<close> (its result dropped).
\<close>

datatype sched_op = Op_Put "task list" | Op_Next | Op_Remove string

fun PartitionedScheduler_apply ::
  "'s Scheduler \<Rightarrow> sched_op \<Rightarrow> 's PartitionedScheduler \<times> store
    \<Rightarrow> 's PartitionedScheduler \<times> store" where
  "PartitionedScheduler_apply ops (Op_Put ts) (p, st) = PartitionedScheduler_Put ops p ts st"
| "PartitionedScheduler_apply ops Op_Next (p, st) = snd (PartitionedScheduler_Next ops p st)"
| "PartitionedScheduler_apply ops (Op_Remove i) (p, st) =
     (snd (PartitionedScheduler_Remove ops p i), st)"

abbreviation descending :: "'s priorityIterator list \<Rightarrow> bool" where
  "descending L \<equiv> sorted_wrt (>) (map priority L)"

section \<open>Scenarios\<close>

text \<open>The pools of \<open>TestResourceVectorPoolRequest\<close>: \<open>[1, 2]\<close>, and \<open>[0, 2]\<close> after \<open>[1, 0]\<close> is granted.\<close>

definition pool_1_2 :: store where
  "pool_1_2 = \<lparr>pools = (\<lambda>a. [])(0 := [1, 2]), brk = 1\<rparr>"

definition pool_0_2 :: store where
  "pool_0_2 = \<lparr>pools = (\<lambda>a. [])(0 := [0, 2]), brk = 1\<rparr>"

text \<open>\<open>testTask\<close> of schedule_test.go: the identifier is the field printed with \<open>%d\<close>.\<close>

definition digit :: "nat \<Rightarrow> char" where
  "digit n = ''0123456789'' ! n"

function string_of_nat :: "nat \<Rightarrow> string" where
  "string_of_nat n = (if n < 10 then [digit n] else string_of_nat (n div 10) @ [digit (n mod 10)])"
  by pat_completeness auto
termination
  by (relation "measure id") auto

declare string_of_nat.simps [simp del]

definition Sprintf_d :: "int \<Rightarrow> string" where
  "Sprintf_d i = (if i < 0 then CHR ''-'' # string_of_nat (nat (- i)) else string_of_nat (nat i))"

definition testTask :: "int \<Rightarrow> task" where
  "testTask field = Task (Sprintf_d field) field"

text \<open>
  \<open>TestResourceManagedScheduler\<close>: a pool of \<open>[2]\<close>, a calculator that always asks for
  \<open>[1]\<close>, tasks 1, 2, 3 put one by one into a resource-managed scheduler over a FIFO
  scheduler.
  \<open>rm_drained\<close> is the scheduler after two \<open>Next\<close> calls (the pool is then \<open>[0]\<close>),
  \<open>rm_parked\<close> after the third.
\<close>

definition calc_one :: "task \<Rightarrow> resourceVector" where
  "calc_one t = NewResourceVectorRequest [1]"

definition pool_2 :: store where
  "pool_2 = \<lparr>pools = (\<lambda>a. [])(0 := [2]), brk = 1\<rparr>"

definition pool_0 :: store where
  "pool_0 = \<lparr>pools = (\<lambda>a. [])(0 := [0]), brk = 1\<rparr>"

definition rm_queued :: "FifoScheduler ResourceManagedScheduler" where
  "rm_queued =
     fst (fold (\<lambda>t (r, st). ResourceManagedScheduler_Put FifoScheduler_ops r [t] st)
            [testTask 1, testTask 2, testTask 3]
            (NewResourceManagedScheduler NewFifoScheduler 0 calc_one, pool_2))"

definition rm_drained :: "FifoScheduler ResourceManagedScheduler" where
  "rm_drained = fst (snd (ResourceManagedScheduler_Nexts FifoScheduler_ops 2 rm_queued pool_2))"

definition rm_parked :: "FifoScheduler ResourceManagedScheduler" where
  "rm_parked = fst (snd (ResourceManagedScheduler_Next FifoScheduler_ops rm_drained pool_0))"

text \<open>
  \<open>TestPartitionedScheduler\<close>: FIFO partitions; \<open>noPriPartitioner\<close> splits by parity at
  priority 1, \<open>priPartitioner\<close> by the remainder modulo 3 at priorities 3, 2, 1. Go's \<open>%\<close>
  truncates towards zero. Each task is put by a call of its own.
\<close>

definition Go_rem :: "int \<Rightarrow> int \<Rightarrow> int" where
  "Go_rem a b = sgn a * (\<bar>a\<bar> mod \<bar>b\<bar>)"

definition schedulerFactory :: "FifoScheduler SchedulerFactory" where
  "schedulerFactory st = (NewFifoScheduler, st)"

definition noPriPartitioner :: "FifoScheduler Partitioner" where
  "noPriPartitioner t =
     (if Go_rem (payload t) 2 = 0 then (''even'', 1, schedulerFactory)
      else (''odd'', 1, schedulerFactory))"

definition no_pools :: store where
  "no_pools = \<lparr>pools = (\<lambda>a. []), brk = 0\<rparr>"

definition noPriScheduler :: "FifoScheduler PartitionedScheduler" where
  "noPriScheduler =
     fst (fold (\<lambda>t (p, st). PartitionedScheduler_Put FifoScheduler_ops p [t] st)
            [testTask 1, testTask 3, testTask 2, testTask 4, testTask 5]
            (NewPartitionedScheduler noPriPartitioner, no_pools))"

definition priPartitioner :: "FifoScheduler Partitioner" where
  "priPartitioner t =
     (if Go_rem (payload t) 3 = 0 then (''rem_0'', 3, schedulerFactory)
      else if Go_rem (payload t) 3 = 1 then (''rem_1'', 2, schedulerFactory)
      else (''rem_2'', 1, schedulerFactory))"

definition priScheduler :: "FifoScheduler PartitionedScheduler" where
  "priScheduler =
     fst (fold (\<lambda>t (p, st). PartitionedScheduler_Put FifoScheduler_ops p [t] st)
            [testTask 1, testTask 2, testTask 3, testTask 4, testTask 5, testTask 6]
            (NewPartitionedScheduler priPartitioner, no_pools))"

definition noPriScheduler_drained :: "FifoScheduler PartitionedScheduler" where
  "noPriScheduler_drained =
     fst (snd (PartitionedScheduler_Nexts FifoScheduler_ops 5 noPriScheduler no_pools))"

definition priScheduler_after2 :: "FifoScheduler PartitionedScheduler" where
  "priScheduler_after2 =
     fst (snd (PartitionedScheduler_Nexts FifoScheduler_ops 2 priScheduler no_pools))"


text \<open>
  Two lanes in the manner of the last example of the example program, whose factory
  builds a resource-managed scheduler with a new pool of \<open>[1]\<close>: here every partition is
  a resource-managed scheduler over a FIFO scheduler with such a pool of its own; odd
  tasks go to the lane \<open>hi\<close> at priority 2, even ones to the lane \<open>lo\<close> at priority 1. \<open>pools_of\<close> is the
  store that holds the listed pools at addresses 0, 1, ...
\<close>

definition laneFactory :: "FifoScheduler ResourceManagedScheduler SchedulerFactory" where
  "laneFactory st =
     (case NewResourceVectorPool [1] st of
        (p, st') \<Rightarrow> (NewResourceManagedScheduler NewFifoScheduler p calc_one, st'))"

definition lanePartitioner :: "FifoScheduler ResourceManagedScheduler Partitioner" where
  "lanePartitioner t =
     (if Go_rem (payload t) 2 = 0 then (''lo'', 1, laneFactory) else (''hi'', 2, laneFactory))"

definition lane_ops :: "FifoScheduler ResourceManagedScheduler Scheduler" where
  "lane_ops = ResourceManagedScheduler_ops FifoScheduler_ops"

definition pools_of :: "64 word list list \<Rightarrow> store" where
  "pools_of ps = \<lparr>pools = (\<lambda>a. if a < length ps then ps ! a else []), brk = length ps\<rparr>"

definition lane_start ::
  "FifoScheduler ResourceManagedScheduler PartitionedScheduler \<times> store" where
  "lane_start =
     fold (\<lambda>t (p, st). PartitionedScheduler_Put lane_ops p [t] st)
       [testTask 1, testTask 3, testTask 2]
       (NewPartitionedScheduler lanePartitioner, no_pools)"

text \<open>
  One lane alone: tasks 1 and 3 put, then the scheduler and store after one \<open>Next\<close>
  (\<open>lane_hi_served\<close>) and after a second (\<open>lane_hi_starved\<close>).
\<close>

definition lane_hi_start ::
  "FifoScheduler ResourceManagedScheduler PartitionedScheduler \<times> store" where
  "lane_hi_start =
     fold (\<lambda>t (p, st). PartitionedScheduler_Put lane_ops p [t] st)
       [testTask 1, testTask 3]
       (NewPartitionedScheduler lanePartitioner, no_pools)"

definition lane_hi_served ::
  "FifoScheduler ResourceManagedScheduler PartitionedScheduler \<times> store" where
  "lane_hi_served =
     snd (PartitionedScheduler_Next lane_ops (fst lane_hi_start) (snd lane_hi_start))"

definition lane_hi_starved ::
  "FifoScheduler ResourceManagedScheduler PartitionedScheduler \<times> store" where
  "lane_hi_starved =
     snd (PartitionedScheduler_Next lane_ops (fst lane_hi_served) (snd lane_hi_served))"

section \<open>Properties\<close>

subsection \<open>The resource pool\<close>

lemma exceeds_iff:
  "length v = length r \<Longrightarrow> exceeds v r \<longleftrightarrow> (\<exists>i < length r. r ! i <s v ! i)"
proof (induction v r rule: exceeds.induct)
  case (1 v vs r rs)
  then show ?case by (auto simp: less_Suc_eq_0_disj)
qed simp_all

lemma sub_each_map2: "length r = length v \<Longrightarrow> sub_each r v = map2 (-) r v"
  by (induction r v rule: sub_each.induct) simp_all

lemma add_each_map2: "length r = length v \<Longrightarrow> add_each r v = map2 (+) r v"
  by (induction r v rule: add_each.induct) simp_all

lemma length_sub_each: "length (sub_each r v) = length r"
  by (induction r v rule: sub_each.induct) simp_all

lemma length_add_each: "length (add_each r v) = length r"
  by (induction r v rule: add_each.induct) simp_all

text \<open>
  C3. For every pool \<open>p\<close> and request \<open>v\<close>: when the lengths differ or a component of the
  request exceeds (as a signed integer) the available count, \<open>Request\<close> grants nothing and
  leaves the store as it was; otherwise it subtracts the request from the pool's counts,
  component by component, and returns a new handle with the request's vector and the
  back-reference \<open>p\<close>.
\<close>

theorem Request_grant_or_deny:
  "(length (resources v) \<noteq> length (pools st p)
      \<or> (\<exists>i < length (pools st p). pools st p ! i <s resources v ! i)
    \<longrightarrow> Request p v st = (None, st))
   \<and> (\<not> (length (resources v) \<noteq> length (pools st p)
          \<or> (\<exists>i < length (pools st p). pools st p ! i <s resources v ! i))
    \<longrightarrow> Request p v st =
          (Some \<lparr>pool = Some p, resources = resources v\<rparr>,
           st\<lparr>pools := (pools st)(p := map2 (-) (pools st p) (resources v))\<rparr>))"
  by (auto simp: Request_def exceeds_iff sub_each_map2)

theorem Request_grant_or_deny_witness:
  "Request 0 (NewResourceVectorRequest [2, 0]) pool_1_2 = (None, pool_1_2)
   \<and> Request 0 (NewResourceVectorRequest [1]) pool_1_2 = (None, pool_1_2)
   \<and> Request 0 (NewResourceVectorRequest [1, 0]) pool_1_2 =
       (Some \<lparr>pool = Some 0, resources = [1, 0]\<rparr>, pool_1_2\<lparr>pools := (pools pool_1_2)(0 := [0, 2])\<rparr>)"
proof -
  have a: "\<exists>i < length (pools pool_1_2 0).
             pools pool_1_2 0 ! i <s resources (NewResourceVectorRequest [2, 0]) ! i"
    by (rule exI [of _ 0]) (simp add: pool_1_2_def NewResourceVectorRequest_def word_sless_alt)
  have c: "\<not> (\<exists>i < length (pools pool_1_2 0).
                pools pool_1_2 0 ! i <s resources (NewResourceVectorRequest [1, 0]) ! i)"
  proof
    assume "\<exists>i < length (pools pool_1_2 0).
              pools pool_1_2 0 ! i <s resources (NewResourceVectorRequest [1, 0]) ! i"
    then obtain i where i: "i < Suc (Suc 0)" "[1, 2 :: 64 word] ! i <s [1, 0] ! i"
      by (auto simp: pool_1_2_def NewResourceVectorRequest_def)
    from i(1) have "i = 0 \<or> i = 1" by arith
    with i(2) show False by (auto simp: word_sless_alt)
  qed
  show ?thesis
    using a c
      Request_grant_or_deny [of "NewResourceVectorRequest [2, 0]" pool_1_2 0]
      Request_grant_or_deny [of "NewResourceVectorRequest [1]" pool_1_2 0]
      Request_grant_or_deny [of "NewResourceVectorRequest [1, 0]" pool_1_2 0]
    by (simp add: pool_1_2_def NewResourceVectorRequest_def)
qed

lemma Request_Some:
  "Request p v st = (Some h, st') \<Longrightarrow>
     pool h = Some p \<and> resources h = resources v \<and> length (resources h) = length (pools st' p)"
  by (auto simp: Request_def length_sub_each split: if_splits)

lemma Request_length: "Request p v st = (g, st') \<Longrightarrow> length (pools st' q) = length (pools st q)"
  by (auto simp: Request_def length_sub_each split: if_splits)

lemma Return_length: "Return r st = (b, r', st') \<Longrightarrow> length (pools st' q) = length (pools st q)"
  by (auto simp: Return_def add_def length_add_each split: option.splits if_splits)

lemma pool_step_length: "pool_step st st' \<Longrightarrow> length (pools st' q) = length (pools st q)"
  by (induction rule: pool_step.induct) (simp_all add: Request_length Return_length)

lemma pool_steps_length: "pool_step\<^sup>*\<^sup>* st st' \<Longrightarrow> length (pools st' q) = length (pools st q)"
  by (induction rule: rtranclp_induct) (simp_all add: pool_step_length)

lemma Return_attached:
  "pool h = Some p \<Longrightarrow> length (resources h) = length (pools st p) \<Longrightarrow>
     Return h st = (True, h\<lparr>pool := None\<rparr>,
                    st\<lparr>pools := (pools st)(p := map2 (+) (pools st p) (resources h))\<rparr>)"
  by (simp add: Return_def add_def add_each_map2)

lemma Return_detached: "pool h = None \<Longrightarrow> Return h st = (False, h, st)"
  by (simp add: Return_def)

text \<open>
  C4. Let \<open>h\<close> be a handle granted by \<open>Request\<close> on pool \<open>p\<close>, and let any number of further
  \<open>Request\<close>s and \<open>Return\<close>s (on any pool, of any handle) follow. Then the first \<open>Return\<close> of
  \<open>h\<close> returns true and adds the handle's vector to the pool's counts, component by
  component; every \<open>Return\<close> after it, in whatever store, returns false and changes nothing.
  \<open>Close\<close> on the \<open>resourceTask\<close> that wraps \<open>h\<close> does the same once, and nothing afterwards.
\<close>

theorem Return_once:
  assumes grant: "Request p v st = (Some h, st1)"
      and later: "pool_step\<^sup>*\<^sup>* st1 st2"
  shows "\<exists>h' st3.
           Return h st2 = (True, h', st3)
         \<and> st3 = st2\<lparr>pools := (pools st2)(p := map2 (+) (pools st2 p) (resources h))\<rparr>
         \<and> (\<forall>st4. Return h' st4 = (False, h', st4))
         \<and> Close (resourceTask t h) st2 = (resourceTask t h', st3)
         \<and> (\<forall>st4. Close (resourceTask t h') st4 = (resourceTask t h', st4))"
proof -
  from grant have h: "pool h = Some p" "length (resources h) = length (pools st1 p)"
    using Request_Some by blast+
  from later have "length (pools st2 p) = length (pools st1 p)"
    by (rule pool_steps_length)
  with h have first: "Return h st2 = (True, h\<lparr>pool := None\<rparr>,
      st2\<lparr>pools := (pools st2)(p := map2 (+) (pools st2 p) (resources h))\<rparr>)"
    by (simp add: Return_attached)
  have again: "Return (h\<lparr>pool := None\<rparr>) st4 = (False, h\<lparr>pool := None\<rparr>, st4)" for st4
    by (simp add: Return_detached)
  show ?thesis
    using first again by simp
qed

theorem Return_once_witness:
  "Request 0 (NewResourceVectorRequest [1, 0]) pool_1_2
     = (Some \<lparr>pool = Some 0, resources = [1, 0]\<rparr>, pool_0_2)
   \<and> Return \<lparr>pool = Some 0, resources = [1, 0]\<rparr> pool_0_2
     = (True, \<lparr>pool = None, resources = [1, 0]\<rparr>, pool_1_2)
   \<and> Return \<lparr>pool = None, resources = [1, 0]\<rparr> pool_1_2
     = (False, \<lparr>pool = None, resources = [1, 0]\<rparr>, pool_1_2)
   \<and> Close (resourceTask (Task ''1'' 1) \<lparr>pool = Some 0, resources = [1, 0]\<rparr>) pool_0_2
     = (resourceTask (Task ''1'' 1) \<lparr>pool = None, resources = [1, 0]\<rparr>, pool_1_2)
   \<and> Close (resourceTask (Task ''1'' 1) \<lparr>pool = None, resources = [1, 0]\<rparr>) pool_1_2
     = (resourceTask (Task ''1'' 1) \<lparr>pool = None, resources = [1, 0]\<rparr>, pool_1_2)"
proof -
  have g: "Request 0 (NewResourceVectorRequest [1, 0]) pool_1_2
             = (Some \<lparr>pool = Some 0, resources = [1, 0]\<rparr>, pool_0_2)"
    by (simp add: Request_def NewResourceVectorRequest_def pool_1_2_def pool_0_2_def
        word_sless_alt)
  have l: "pool_step\<^sup>*\<^sup>* pool_0_2 pool_0_2" by simp
  from Return_once [OF g l, of "Task ''1'' 1"] obtain h' st3 where
    r: "Return \<lparr>pool = Some 0, resources = [1, 0]\<rparr> pool_0_2 = (True, h', st3)"
       "st3 = pool_0_2\<lparr>pools := (pools pool_0_2)(0 := map2 (+) (pools pool_0_2 0) [1, 0])\<rparr>"
       "\<And>st4. Return h' st4 = (False, h', st4)"
       "Close (resourceTask (Task ''1'' 1) \<lparr>pool = Some 0, resources = [1, 0]\<rparr>) pool_0_2
          = (resourceTask (Task ''1'' 1) h', st3)"
       "\<And>st4. Close (resourceTask (Task ''1'' 1) h') st4 = (resourceTask (Task ''1'' 1) h', st4)"
    by auto
  have h': "h' = \<lparr>pool = None, resources = [1, 0]\<rparr>"
    using r(1) by (simp add: Return_def)
  have st3: "st3 = pool_1_2"
    using r(2) by (simp add: pool_0_2_def pool_1_2_def)
  show ?thesis
    using g r(1) r(3) [of pool_1_2] r(4) r(5) [of pool_1_2] unfolding h' st3 by simp
qed

text \<open>
  C9. A resource made by \<open>NewResourceVectorRequest\<close> has no back-reference. \<open>Return\<close> on it
  returns false in every store, the first time as every other time (the resource comes
  back as it was), and the store is left as it was; so does \<open>Close\<close> on a task wrapping it.
\<close>

theorem Return_of_request:
  "pool (NewResourceVectorRequest res) = None
   \<and> Return (NewResourceVectorRequest res) st = (False, NewResourceVectorRequest res, st)
   \<and> Close (resourceTask t (NewResourceVectorRequest res)) st
       = (resourceTask t (NewResourceVectorRequest res), st)"
  by (simp add: NewResourceVectorRequest_def Return_def)

lemma string_of_nat_digit: "n < 10 \<Longrightarrow> string_of_nat n = [digit n]"
  by (subst string_of_nat.simps) simp

lemma testTask_digit: "0 \<le> i \<Longrightarrow> i < 10 \<Longrightarrow> testTask i = Task [digit (nat i)] i"
  by (simp add: testTask_def Sprintf_d_def string_of_nat_digit)


subsection \<open>The FIFO scheduler\<close>







subsection \<open>The resource-managed scheduler\<close>

lemma testTask_ids:
  "testTask 1 = Task ''1'' 1" "testTask 2 = Task ''2'' 2" "testTask 3 = Task ''3'' 3"
  "testTask 4 = Task ''4'' 4" "testTask 5 = Task ''5'' 5" "testTask 6 = Task ''6'' 6"
  by (simp_all add: testTask_digit digit_def)

lemma rm_queued_eq:
  "rm_queued = \<lparr>waiting = None,
      underlying = \<lparr>elements = [testTask 1, testTask 2, testTask 3],
                     elementMap = {''1'', ''2'', ''3''},
                     maxUnusedSliceSpace = 16, unusedSliceCount = 3\<rparr>,
      rpool = 0, resourceCalculator = calc_one\<rparr>"
  by (simp add: rm_queued_def ResourceManagedScheduler_Put_def FifoScheduler_ops_def
      NewResourceManagedScheduler_def NewFifoScheduler_def FifoScheduler_Put_def Let_def
      testTask_ids word_le_nat_alt insert_commute)

lemma Request_one_2:
  "Request 0 (calc_one t) pool_2 = (Some \<lparr>pool = Some 0, resources = [1]\<rparr>, pool_2\<lparr>pools := (pools pool_2)(0 := [1])\<rparr>)"
  by (simp add: Request_def calc_one_def NewResourceVectorRequest_def pool_2_def word_sless_alt)

lemma Request_one_1:
  "Request 0 (calc_one t) (pool_2\<lparr>pools := (pools pool_2)(0 := [1])\<rparr>) = (Some \<lparr>pool = Some 0, resources = [1]\<rparr>, pool_0)"
  by (simp add: Request_def calc_one_def NewResourceVectorRequest_def pool_2_def pool_0_def word_sless_alt)

lemma Request_one_0:
  "Request 0 (calc_one t) pool_0 = (None, pool_0)"
  by (simp add: Request_def calc_one_def NewResourceVectorRequest_def pool_0_def word_sless_alt)

lemma rm_drained_run:
  "ResourceManagedScheduler_Nexts FifoScheduler_ops 2 rm_queued pool_2 =
     ([Some (resourceTask (testTask 1) \<lparr>pool = Some 0, resources = [1]\<rparr>),
       Some (resourceTask (testTask 2) \<lparr>pool = Some 0, resources = [1]\<rparr>)],
      \<lparr>waiting = None,
       underlying = \<lparr>elements = [testTask 3], elementMap = {''3''},
                     maxUnusedSliceSpace = 16, unusedSliceCount = 3\<rparr>,
       rpool = 0, resourceCalculator = calc_one\<rparr>,
      pool_0)"
  by (simp add: rm_queued_eq numeral_2_eq_2 ResourceManagedScheduler_Next_def
      FifoScheduler_ops_def FifoScheduler_Next_def Request_one_2 Request_one_1 testTask_ids)

lemma rm_drained_eq:
  "rm_drained = \<lparr>waiting = None,
       underlying = \<lparr>elements = [testTask 3], elementMap = {''3''},
                     maxUnusedSliceSpace = 16, unusedSliceCount = 3\<rparr>,
       rpool = 0, resourceCalculator = calc_one\<rparr>"
  by (simp add: rm_drained_def rm_drained_run)

lemma rm_parked_run:
  "ResourceManagedScheduler_Next FifoScheduler_ops rm_drained pool_0 =
     (None,
      \<lparr>waiting = Some (testTask 3),
       underlying = \<lparr>elements = [], elementMap = {},
                     maxUnusedSliceSpace = 16, unusedSliceCount = 3\<rparr>,
       rpool = 0, resourceCalculator = calc_one\<rparr>,
      pool_0)"
  by (simp add: rm_drained_eq ResourceManagedScheduler_Next_def
      FifoScheduler_ops_def FifoScheduler_Next_def Request_one_0 testTask_ids)

lemma rm_parked_eq:
  "rm_parked = \<lparr>waiting = Some (testTask 3),
       underlying = \<lparr>elements = [], elementMap = {},
                     maxUnusedSliceSpace = 16, unusedSliceCount = 3\<rparr>,
       rpool = 0, resourceCalculator = calc_one\<rparr>"
  by (simp add: rm_parked_def rm_parked_run)

lemma Fifo_Put_contained:
  assumes "FifoScheduler_Contains f t"
  shows "elements (FifoScheduler_Put f [t]) = elements f
       \<and> elementMap (FifoScheduler_Put f [t]) = elementMap f
       \<and> FifoScheduler_Size (FifoScheduler_Put f [t]) = FifoScheduler_Size f"
  using assms
  by (simp add: FifoScheduler_Contains_def FifoScheduler_Put_def FifoScheduler_Size_def Let_def)

lemma Partitioned_Put_contained:
  assumes "PartitionedScheduler_Contains p t"
  shows "PartitionedScheduler_Put ops p [t] st = (p, st)"
  using assms by (simp add: PartitionedScheduler_Put1_def)

lemma ResourceManaged_Put_contained_below:
  assumes "Put ops (underlying r) [t] st = (underlying r, st)"
  shows "ResourceManagedScheduler_Put ops r [t] st = (r, st)"
  using assms by (simp add: ResourceManagedScheduler_Put_def)

text \<open>
  C1, at the input where the code departs from it: task 3 is parked, so \<open>Contains\<close> holds
  and \<open>Size\<close> is 1. \<open>Put\<close> of task 3 is handed to the underlying scheduler, which no
  longer holds it and takes it: \<open>Size\<close> becomes 2, with task 3 both parked and queued.
\<close>

theorem parked_Put_not_dropped:
  "ResourceManagedScheduler_Contains FifoScheduler_ops rm_parked (testTask 3)
   \<and> ResourceManagedScheduler_Size FifoScheduler_ops rm_parked = 1
   \<and> ResourceManagedScheduler_Size FifoScheduler_ops
        (fst (ResourceManagedScheduler_Put FifoScheduler_ops rm_parked [testTask 3] pool_0)) = 2
   \<and> waiting (fst (ResourceManagedScheduler_Put FifoScheduler_ops rm_parked [testTask 3] pool_0))
        = Some (testTask 3)
   \<and> elements (underlying
        (fst (ResourceManagedScheduler_Put FifoScheduler_ops rm_parked [testTask 3] pool_0)))
        = [testTask 3]"
  by (simp add: rm_parked_eq ResourceManagedScheduler_Contains_def
      ResourceManagedScheduler_Size_def ResourceManagedScheduler_Put_def FifoScheduler_ops_def
      FifoScheduler_Size_def FifoScheduler_Put_def Let_def word_le_nat_alt)

text \<open>
  C2, at the input where the code departs from it: with task 3 parked, \<open>Remove\<close> of its
  identifier returns task 3 and leaves the scheduler as it was: task 3 is still parked,
  \<open>Contains\<close> still holds and \<open>Size\<close> is still 1.
\<close>

theorem parked_Remove_keeps_parked:
  "ResourceManagedScheduler_Remove FifoScheduler_ops rm_parked (Id_of (testTask 3))
     = (Some (testTask 3), rm_parked)
   \<and> waiting rm_parked = Some (testTask 3)
   \<and> ResourceManagedScheduler_Contains FifoScheduler_ops rm_parked (testTask 3)
   \<and> ResourceManagedScheduler_Size FifoScheduler_ops rm_parked = 1"
  by (simp add: rm_parked_eq ResourceManagedScheduler_Contains_def
      ResourceManagedScheduler_Size_def ResourceManagedScheduler_Remove_def FifoScheduler_ops_def
      FifoScheduler_Size_def)

lemma Request_denied_pool:
  "Request p v st = (None, st') \<Longrightarrow> pools st2 p = pools st p \<Longrightarrow> Request p v st2 = (None, st2)"
  by (auto simp: Request_def split: if_splits)

lemma Request_denied_store: "Request p v st = (None, st') \<Longrightarrow> st' = st"
  by (auto simp: Request_def split: if_splits)

lemma Request_denied_again: "Request p v st = (None, st') \<Longrightarrow> Request p v st' = (None, st')"
  by (auto simp: Request_def split: if_splits)

lemma Next_parks:
  assumes "ResourceManagedScheduler_Next ops r st = (None, r', st')" and "waiting r' = Some t"
  shows "Request (rpool r') (resourceCalculator r' t) st' = (None, st')"
  using assms
  by (auto simp: ResourceManagedScheduler_Next_def
      split: option.splits prod.splits dest: Request_denied_again)

lemma Next_parked:
  assumes "waiting r = Some t" and "Request (rpool r) (resourceCalculator r t) st = (None, st)"
  shows "ResourceManagedScheduler_Next ops r st = (None, r, st)"
  using assms by (simp add: ResourceManagedScheduler_Next_def)

lemma Nexts_parked:
  assumes "waiting r = Some t" and "Request (rpool r) (resourceCalculator r t) st = (None, st)"
  shows "ResourceManagedScheduler_Nexts ops n r st = (replicate n None, r, st)"
  by (induction n) (simp_all add: Next_parked [OF assms])

text \<open>
  C8. When \<open>Next\<close> returns nothing and leaves a task \<open>t\<close> parked (the pool denied its
  request), then any number of further \<open>Next\<close> calls return nothing and leave scheduler
  and store as they are; more generally \<open>Next\<close> returns nothing and changes nothing in
  every store where the scheduler's pool has the same counts; and \<open>Contains\<close> holds of
  every task with the identifier of \<open>t\<close>. The calculator is a function of the task.
\<close>

theorem parked_stays_parked:
  assumes "ResourceManagedScheduler_Next ops r st = (None, r', st')" and "waiting r' = Some t"
  shows "ResourceManagedScheduler_Nexts ops n r' st' = (replicate n None, r', st')
       \<and> (\<forall>st2. pools st2 (rpool r') = pools st' (rpool r') \<longrightarrow>
             ResourceManagedScheduler_Next ops r' st2 = (None, r', st2))
       \<and> (\<forall>t'. Id_of t' = Id_of t \<longrightarrow> ResourceManagedScheduler_Contains ops r' t')"
proof -
  note denied = Next_parks [OF assms]
  have "ResourceManagedScheduler_Next ops r' st2 = (None, r', st2)"
    if "pools st2 (rpool r') = pools st' (rpool r')" for st2
    using Next_parked [OF assms(2)] Request_denied_pool [OF denied that] by simp
  moreover have "ResourceManagedScheduler_Contains ops r' t'" if "Id_of t' = Id_of t" for t'
    using assms(2) that by (simp add: ResourceManagedScheduler_Contains_def)
  ultimately show ?thesis
    using Nexts_parked [OF assms(2) denied] by simp
qed

theorem parked_stays_parked_witness:
  "ResourceManagedScheduler_Next FifoScheduler_ops rm_drained pool_0 = (None, rm_parked, pool_0)
   \<and> waiting rm_parked = Some (testTask 3)
   \<and> ResourceManagedScheduler_Nexts FifoScheduler_ops 4 rm_parked pool_0
        = ([None, None, None, None], rm_parked, pool_0)
   \<and> ResourceManagedScheduler_Next FifoScheduler_ops rm_parked pool_0 = (None, rm_parked, pool_0)
   \<and> ResourceManagedScheduler_Contains FifoScheduler_ops rm_parked (testTask 3)"
proof -
  have a: "ResourceManagedScheduler_Next FifoScheduler_ops rm_drained pool_0 = (None, rm_parked, pool_0)"
    by (simp add: rm_parked_run rm_parked_eq)
  have b: "waiting rm_parked = Some (testTask 3)"
    by (simp add: rm_parked_eq)
  note T = parked_stays_parked [OF a b, of 4]
  from T have c: "ResourceManagedScheduler_Nexts FifoScheduler_ops 4 rm_parked pool_0
        = ([None, None, None, None], rm_parked, pool_0)"
    by (simp add: numeral_eq_Suc)
  from T have d: "ResourceManagedScheduler_Next FifoScheduler_ops rm_parked pool_0 = (None, rm_parked, pool_0)"
    by simp
  from T have e: "ResourceManagedScheduler_Contains FifoScheduler_ops rm_parked (testTask 3)"
    by simp
  from a b c d e show ?thesis by blast
qed

subsection \<open>The partitioned scheduler\<close>

lemma map_list_update_same: "f y = f (xs ! k) \<Longrightarrow> map f (xs[k := y]) = map f xs"
  by (induction xs arbitrary: k) (auto split: nat.splits)

lemma probe_None_frame:
  "probe ops pi i n st = (None, pi', st') \<Longrightarrow>
     priority pi' = priority pi \<and> pos pi' = pos pi
     \<and> map key (partitions pi') = map key (partitions pi)
     \<and> map cache (partitions pi') = map cache (partitions pi)"
proof (induction n arbitrary: pi i st)
  case 0
  then show ?case by simp
next
  case (Suc n)
  let ?idx = "(pos pi + i) mod length (partitions pi)"
  let ?part = "partitions pi ! ?idx"
  obtain r s' st1 where nx: "Next ops (pvalue ?part) st = (r, s', st1)"
    by (cases "Next ops (pvalue ?part) st") auto
  show ?case
  proof (cases r)
    case None
    let ?pi1 = "pi\<lparr>partitions := (partitions pi)[?idx := ?part\<lparr>pvalue := s'\<rparr>]\<rparr>"
    from Suc.prems nx None have "probe ops ?pi1 (Suc i) n st1 = (None, pi', st')"
      by (simp add: Let_def)
    from Suc.IH [OF this] show ?thesis
      by (simp add: map_list_update_same)
  next
    case (Some t)
    with Suc.prems nx show ?thesis by (simp add: Let_def)
  qed
qed

lemma Next_levels_None_frame:
  "Next_levels ops L st = (None, L', st') \<Longrightarrow>
     map priority L' = map priority L \<and> map pos L' = map pos L
     \<and> map (\<lambda>pi. map key (partitions pi)) L' = map (\<lambda>pi. map key (partitions pi)) L
     \<and> map (\<lambda>pi. map cache (partitions pi)) L' = map (\<lambda>pi. map cache (partitions pi)) L"
proof (induction L arbitrary: L' st)
  case Nil
  then show ?case by simp
next
  case (Cons pi rest)
  obtain r pi1 st1 where it: "iter_Next ops pi st = (r, pi1, st1)"
    by (cases "iter_Next ops pi st") auto
  with Cons.prems have r: "r = None" by (cases r) auto
  obtain r2 rest' st2 where nl: "Next_levels ops rest st1 = (r2, rest', st2)"
    by (cases "Next_levels ops rest st1") auto
  from Cons.prems it r nl have eqs: "r2 = None" "L' = pi1 # rest'" "st2 = st'"
    by auto
  from it r have "probe ops pi 0 (length (partitions pi)) st = (None, pi1, st1)"
    by (simp add: iter_Next_def)
  note h = probe_None_frame [OF this]
  from Cons.IH [of st1 rest'] nl eqs h show ?case by simp
qed

lemma probe_Fifo_None:
  "probe FifoScheduler_ops pi i n st = (None, pi', st') \<Longrightarrow> pi' = pi \<and> st' = st"
proof (induction n arbitrary: i)
  case 0
  then show ?case by simp
next
  case (Suc n)
  let ?idx = "(pos pi + i) mod length (partitions pi)"
  let ?f = "pvalue (partitions pi ! ?idx)"
  show ?case
  proof (cases "elements ?f")
    case Nil
    then have "Next FifoScheduler_ops ?f st = (None, ?f, st)"
      by (simp add: FifoScheduler_ops_def FifoScheduler_Next_def)
    with Suc.prems have "probe FifoScheduler_ops pi (Suc i) n st = (None, pi', st')"
      by (simp add: Let_def)
    then show ?thesis by (rule Suc.IH)
  next
    case (Cons s rest)
    then have "\<exists>f'. Next FifoScheduler_ops ?f st = (Some (defaultScheduledTask s), f', st)"
      by (simp add: FifoScheduler_ops_def FifoScheduler_Next_def)
    with Suc.prems show ?thesis by (auto simp: Let_def)
  qed
qed

lemma Next_levels_Fifo_None:
  "Next_levels FifoScheduler_ops L st = (None, L', st') \<Longrightarrow> L' = L \<and> st' = st"
proof (induction L arbitrary: L')
  case Nil
  then show ?case by simp
next
  case (Cons pi rest)
  obtain r pi1 st1 where it: "iter_Next FifoScheduler_ops pi st = (r, pi1, st1)"
    by (cases "iter_Next FifoScheduler_ops pi st") auto
  with Cons.prems have r: "r = None" by (cases r) auto
  with it have same: "pi1 = pi" "st1 = st"
    using probe_Fifo_None [of pi 0 "length (partitions pi)" st pi1 st1]
    by (simp_all add: iter_Next_def)
  obtain r2 rest' st2 where nl: "Next_levels FifoScheduler_ops rest st = (r2, rest', st2)"
    by (cases "Next_levels FifoScheduler_ops rest st") auto
  from Cons.prems it r same nl have eqs: "r2 = None" "L' = pi # rest'" "st' = st2"
    by auto
  from Cons.IH [of rest'] nl eqs show ?case by simp
qed

lemma Next_levels_None_shape:
  assumes "Next_levels ops L st = (None, L', st')"
  shows "map (\<lambda>pi. length (partitions pi)) L' = map (\<lambda>pi. length (partitions pi)) L"
proof -
  from Next_levels_None_frame [OF assms]
  have "map length (map (\<lambda>pi. map key (partitions pi)) L')
          = map length (map (\<lambda>pi. map key (partitions pi)) L)"
    by simp
  then show ?thesis by (simp add: comp_def)
qed

text \<open>
  C10, as the code has it. When \<open>Next\<close> on a partitioned scheduler returns nothing, the
  scheduler keeps its partitioner, its levels with their priorities and cursors, and in
  every level its partitions with their keys and membership indexes (\<open>cache\<close>): none is
  created, removed or modified. This holds over any kind of sub-scheduler; the
  sub-schedulers behind \<open>value\<close> may change. Over FIFO sub-schedulers the scheduler and
  the store are left exactly as they were.
\<close>

theorem Next_nothing_frame:
  "(PartitionedScheduler_Next ops p st = (None, p', st') \<longrightarrow>
      partitioner p' = partitioner p
      \<and> length (prioritizedPartitions p') = length (prioritizedPartitions p)
      \<and> map (\<lambda>pi. length (partitions pi)) (prioritizedPartitions p')
          = map (\<lambda>pi. length (partitions pi)) (prioritizedPartitions p)
      \<and> map priority (prioritizedPartitions p') = map priority (prioritizedPartitions p)
      \<and> map pos (prioritizedPartitions p') = map pos (prioritizedPartitions p)
      \<and> map (\<lambda>pi. map key (partitions pi)) (prioritizedPartitions p')
          = map (\<lambda>pi. map key (partitions pi)) (prioritizedPartitions p)
      \<and> map (\<lambda>pi. map cache (partitions pi)) (prioritizedPartitions p')
          = map (\<lambda>pi. map cache (partitions pi)) (prioritizedPartitions p))
   \<and> (PartitionedScheduler_Next FifoScheduler_ops q st = (None, q', st') \<longrightarrow>
        q' = q \<and> st' = st)"
proof -
  have a: "PartitionedScheduler_Next ops p st = (None, p', st') \<longrightarrow>
      partitioner p' = partitioner p
      \<and> map (\<lambda>pi. length (partitions pi)) (prioritizedPartitions p')
          = map (\<lambda>pi. length (partitions pi)) (prioritizedPartitions p)
      \<and> map priority (prioritizedPartitions p') = map priority (prioritizedPartitions p)
      \<and> map pos (prioritizedPartitions p') = map pos (prioritizedPartitions p)
      \<and> map (\<lambda>pi. map key (partitions pi)) (prioritizedPartitions p')
          = map (\<lambda>pi. map key (partitions pi)) (prioritizedPartitions p)
      \<and> map (\<lambda>pi. map cache (partitions pi)) (prioritizedPartitions p')
          = map (\<lambda>pi. map cache (partitions pi)) (prioritizedPartitions p)"
    using Next_levels_None_frame [of ops "prioritizedPartitions p" st]
      Next_levels_None_shape [of ops "prioritizedPartitions p" st]
    by (auto simp: PartitionedScheduler_Next_def split: prod.splits)
  have b: "PartitionedScheduler_Next FifoScheduler_ops q st = (None, q', st') \<longrightarrow>
        q' = q \<and> st' = st"
    using Next_levels_Fifo_None [of "prioritizedPartitions q" st]
    by (auto simp: PartitionedScheduler_Next_def split: prod.splits)
  from a have "PartitionedScheduler_Next ops p st = (None, p', st') \<longrightarrow>
      length (prioritizedPartitions p') = length (prioritizedPartitions p)"
    using map_eq_imp_length_eq by blast
  with a b show ?thesis by blast
qed

lemma probe_priority: "probe ops pi i n st = (r, pi', st') \<Longrightarrow> priority pi' = priority pi"
proof (induction n arbitrary: pi i st)
  case 0
  then show ?case by simp
next
  case (Suc n)
  let ?idx = "(pos pi + i) mod length (partitions pi)"
  let ?part = "partitions pi ! ?idx"
  obtain x s' st1 where nx: "Next ops (pvalue ?part) st = (x, s', st1)"
    by (cases "Next ops (pvalue ?part) st") auto
  show ?case
  proof (cases x)
    case None
    let ?pi1 = "pi\<lparr>partitions := (partitions pi)[?idx := ?part\<lparr>pvalue := s'\<rparr>]\<rparr>"
    from Suc.prems nx None have "probe ops ?pi1 (Suc i) n st1 = (r, pi', st')"
      by (simp add: Let_def)
    from Suc.IH [OF this] show ?thesis by simp
  next
    case (Some t)
    with Suc.prems nx show ?thesis by (auto simp: Let_def)
  qed
qed

lemma Next_levels_priority:
  "Next_levels ops L st = (r, L', st') \<Longrightarrow> map priority L' = map priority L"
proof (induction L arbitrary: r L' st st')
  case Nil
  then show ?case by simp
next
  case (Cons pi rest)
  obtain x pi1 st1 where it: "iter_Next ops pi st = (x, pi1, st1)"
    by (cases "iter_Next ops pi st") auto
  then have p: "priority pi1 = priority pi"
    by (simp add: iter_Next_def probe_priority)
  show ?case
  proof (cases x)
    case None
    obtain r2 rest' st2 where nl: "Next_levels ops rest st1 = (r2, rest', st2)"
      by (cases "Next_levels ops rest st1") auto
    from Cons.IH [OF nl] Cons.prems it None nl p show ?thesis by auto
  next
    case (Some t)
    with Cons.prems it p show ?thesis by auto
  qed
qed

lemma Remove_levels_priority:
  "Remove_levels ops i L = (r, L') \<Longrightarrow> map priority L' = map priority L"
proof (induction L arbitrary: r L')
  case Nil
  then show ?case by simp
next
  case (Cons pri rest)
  then show ?case
    by (auto split: prod.splits option.splits)
qed

lemma find_iter_priorities:
  "find_iter pri L = (L', i) \<Longrightarrow> set (map priority L') = insert pri (set (map priority L))"
proof (induction L arbitrary: L' i)
  case Nil
  then show ?case by (auto simp: newIter_def)
next
  case (Cons pi rest)
  show ?case
  proof (cases "priority pi = pri \<or> priority pi < pri")
    case True
    with Cons.prems show ?thesis
      by (auto simp: newIter_def split: if_splits)
  next
    case False
    obtain rest' k where fi: "find_iter pri rest = (rest', k)"
      by (cases "find_iter pri rest") auto
    from Cons.IH [OF fi] have "set (map priority rest') = insert pri (set (map priority rest))" .
    moreover from Cons.prems fi False have "L' = pi # rest'" by auto
    ultimately show ?thesis by auto
  qed
qed

lemma find_iter_descending:
  "descending L \<Longrightarrow> find_iter pri L = (L', i) \<Longrightarrow>
     descending L' \<and> i < length L' \<and> priority (L' ! i) = pri"
proof (induction L arbitrary: L' i)
  case Nil
  then show ?case by (auto simp: newIter_def)
next
  case (Cons pi rest)
  show ?case
  proof (cases "priority pi = pri \<or> priority pi < pri")
    case True
    with Cons.prems show ?thesis
      by (fastforce simp: newIter_def split: if_splits)
  next
    case False
    obtain rest' k where fi: "find_iter pri rest = (rest', k)"
      by (cases "find_iter pri rest") auto
    from Cons.prems(1) have "descending rest" by simp
    from Cons.IH [OF this fi] have ih: "descending rest'" "k < length rest'" "priority (rest' ! k) = pri"
      by simp_all
    from False have gt: "pri < priority pi" by auto
    from find_iter_priorities [OF fi] Cons.prems(1) gt
    have "\<forall>x \<in> set (map priority rest'). x < priority pi" by auto
    with ih Cons.prems(2) fi False show ?thesis by auto
  qed
qed

lemma iter_Put_priority:
  "iter_Put ops k factory t iter st = (iter', st') \<Longrightarrow> priority iter' = priority iter"
  by (auto simp: iter_Put_def Let_def split: prod.splits if_splits)

lemma Put1_descending:
  assumes "descending (prioritizedPartitions p)"
      and "PartitionedScheduler_Put1 ops p t st = (p', st')"
  shows "descending (prioritizedPartitions p')"
proof (cases "PartitionedScheduler_Contains p t")
  case True
  with assms show ?thesis by (simp add: PartitionedScheduler_Put1_def)
next
  case False
  obtain k pri factory where pt: "partitioner p t = (k, pri, factory)"
    by (cases "partitioner p t") auto
  obtain levels i where fi: "find_iter pri (prioritizedPartitions p) = (levels, i)"
    by (cases "find_iter pri (prioritizedPartitions p)") auto
  obtain iter' st1 where ip: "iter_Put ops k factory t (levels ! i) st = (iter', st1)"
    by (cases "iter_Put ops k factory t (levels ! i) st") auto
  from find_iter_descending [OF assms(1) fi] have d: "descending levels" by simp
  from iter_Put_priority [OF ip] have "map priority (levels[i := iter']) = map priority levels"
    by (simp add: map_list_update_same)
  with d assms(2) False pt fi ip show ?thesis
    by (auto simp: PartitionedScheduler_Put1_def)
qed

lemma Put_descending:
  "descending (prioritizedPartitions p) \<Longrightarrow> PartitionedScheduler_Put ops p ts st = (p', st') \<Longrightarrow>
     descending (prioritizedPartitions p')"
proof (induction ts arbitrary: p st)
  case Nil
  then show ?case by simp
next
  case (Cons t ts)
  obtain p1 st1 where p1: "PartitionedScheduler_Put1 ops p t st = (p1, st1)"
    by (cases "PartitionedScheduler_Put1 ops p t st") auto
  from Put1_descending [OF Cons.prems(1) p1] have "descending (prioritizedPartitions p1)" .
  from Cons.IH [OF this] Cons.prems(2) p1 show ?case by simp
qed

lemma apply_descending:
  assumes "descending (prioritizedPartitions (fst c))"
  shows "descending (prioritizedPartitions (fst (PartitionedScheduler_apply ops x c)))"
proof -
  obtain p st where c: "c = (p, st)" by (cases c) auto
  show ?thesis
  proof (cases x)
    case (Op_Put ts)
    with assms c Put_descending [of p ops ts st] show ?thesis
      by (cases "PartitionedScheduler_Put ops p ts st") auto
  next
    case Op_Next
    with assms c Next_levels_priority [of ops "prioritizedPartitions p" st] show ?thesis
      by (auto simp: PartitionedScheduler_Next_def split: prod.splits)
  next
    case (Op_Remove i)
    with assms c Remove_levels_priority [of ops i "prioritizedPartitions p"] show ?thesis
      by (auto simp: PartitionedScheduler_Remove_def split: prod.splits)
  qed
qed

lemma run_descending:
  "descending (prioritizedPartitions (fst c)) \<Longrightarrow>
     descending (prioritizedPartitions (fst (fold (PartitionedScheduler_apply ops) xs c)))"
  by (induction xs arbitrary: c) (simp_all add: apply_descending)

lemma Next_levels_append:
  "Next_levels ops (hi @ lo) st =
     (case Next_levels ops hi st of
        (Some t, hi', st1) \<Rightarrow> (Some t, hi' @ lo, st1)
      | (None, hi', st1) \<Rightarrow>
          (case Next_levels ops lo st1 of (r, lo', st2) \<Rightarrow> (r, hi' @ lo', st2)))"
  by (induction hi arbitrary: st) (auto split: prod.splits option.splits)

lemma Fifo_Next_Nil:
  "elements f = [] \<Longrightarrow> Next FifoScheduler_ops f st = (None, f, st)"
  by (simp add: FifoScheduler_ops_def FifoScheduler_Next_def)

lemma Fifo_Next_Cons:
  "elements f = s # rest \<Longrightarrow>
     Next FifoScheduler_ops f st =
       (Some (defaultScheduledTask s),
        f\<lparr>elements := rest, elementMap := elementMap f - {Id_of s}\<rparr>, st)"
  by (simp add: FifoScheduler_ops_def FifoScheduler_Next_def)

lemma probe_Fifo_None_empty:
  "probe FifoScheduler_ops pi i n st = (None, pi', st') \<Longrightarrow> i \<le> k \<Longrightarrow> k < i + n \<Longrightarrow>
     elements (pvalue (partitions pi ! ((pos pi + k) mod length (partitions pi)))) = []"
proof (induction n arbitrary: i)
  case 0
  then show ?case by simp
next
  case (Suc n)
  let ?f = "pvalue (partitions pi ! ((pos pi + i) mod length (partitions pi)))"
  show ?case
  proof (cases "elements ?f")
    case Nil
    with Suc.prems(1) have rec: "probe FifoScheduler_ops pi (Suc i) n st = (None, pi', st')"
      by (simp add: Let_def Fifo_Next_Nil)
    show ?thesis
    proof (cases "k = i")
      case True
      with Nil show ?thesis by simp
    next
      case False
      with Suc.prems have "Suc i \<le> k" "k < Suc i + n" by simp_all
      from Suc.IH [OF rec this] show ?thesis .
    qed
  next
    case (Cons s rest)
    with Suc.prems(1) show ?thesis by (simp add: Let_def Fifo_Next_Cons)
  qed
qed

lemma cursor_covers:
  assumes "m < (n::nat)"
  shows "\<exists>k < n. (c + k) mod n = m"
proof -
  let ?k = "(m + (n - c mod n)) mod n"
  from assms have n: "0 < n" by simp
  then have "c mod n < n" by simp
  have "(c + ?k) mod n = (c mod n + (m + (n - c mod n))) mod n"
    by (metis mod_add_left_eq mod_add_right_eq)
  also have "c mod n + (m + (n - c mod n)) = m + n"
    using \<open>c mod n < n\<close> by simp
  also have "(m + n) mod n = m" using assms by simp
  finally have "(c + ?k) mod n = m" .
  moreover have "?k < n" using n by simp
  ultimately show ?thesis by blast
qed

lemma iter_Next_Fifo_None_empty:
  assumes "iter_Next FifoScheduler_ops pi st = (None, pi', st')" and "prt \<in> set (partitions pi)"
  shows "elements (pvalue prt) = []"
proof -
  from assms(2) obtain m where m: "m < length (partitions pi)" "partitions pi ! m = prt"
    by (auto simp: in_set_conv_nth)
  from cursor_covers [OF m(1), of "pos pi"] obtain k where
    k: "k < length (partitions pi)" "(pos pi + k) mod length (partitions pi) = m"
    by blast
  from assms(1) have "probe FifoScheduler_ops pi 0 (length (partitions pi)) st = (None, pi', st')"
    by (simp add: iter_Next_def)
  from probe_Fifo_None_empty [OF this, of k] k m show ?thesis by simp
qed

lemma probe_Fifo_Some:
  "probe FifoScheduler_ops pi i n st = (Some t, pi', st') \<Longrightarrow> 0 < length (partitions pi) \<Longrightarrow>
     \<exists>j. i \<le> j \<and> j < i + n
       \<and> (\<forall>k. i \<le> k \<and> k < j \<longrightarrow>
             elements (pvalue (partitions pi ! ((pos pi + k) mod length (partitions pi)))) = [])
       \<and> elements (pvalue (partitions pi ! ((pos pi + j) mod length (partitions pi))))
           = Task_of t
             # elements (pvalue (partitions pi' ! ((pos pi + j) mod length (partitions pi))))
       \<and> pos pi' = (pos pi + j + 1) mod length (partitions pi)
       \<and> st' = st"
proof (induction n arbitrary: i)
  case 0
  then show ?case by simp
next
  case (Suc n)
  let ?len = "length (partitions pi)"
  let ?idx = "(pos pi + i) mod ?len"
  let ?f = "pvalue (partitions pi ! ?idx)"
  from Suc.prems(2) have idx: "?idx < ?len" by simp
  show ?case
  proof (cases "elements ?f")
    case Nil
    with Suc.prems(1) have rec: "probe FifoScheduler_ops pi (Suc i) n st = (Some t, pi', st')"
      by (simp add: Let_def Fifo_Next_Nil)
    from Suc.IH [OF rec Suc.prems(2)] obtain j where
      j: "Suc i \<le> j" "j < Suc i + n"
         "\<forall>k. Suc i \<le> k \<and> k < j \<longrightarrow>
             elements (pvalue (partitions pi ! ((pos pi + k) mod ?len))) = []"
         "elements (pvalue (partitions pi ! ((pos pi + j) mod ?len)))
           = Task_of t # elements (pvalue (partitions pi' ! ((pos pi + j) mod ?len)))"
         "pos pi' = (pos pi + j + 1) mod ?len" "st' = st"
      by blast
    have "\<forall>k. i \<le> k \<and> k < j \<longrightarrow>
             elements (pvalue (partitions pi ! ((pos pi + k) mod ?len))) = []"
    proof (intro allI impI)
      fix k assume k: "i \<le> k \<and> k < j"
      show "elements (pvalue (partitions pi ! ((pos pi + k) mod ?len))) = []"
      proof (cases "k = i")
        case True
        with Nil show ?thesis by simp
      next
        case False
        with k j(3) show ?thesis by simp
      qed
    qed
    with j show ?thesis
      by (intro exI [of _ j]) simp
  next
    case (Cons s rest)
    with Suc.prems(1) idx show ?thesis
      by (intro exI [of _ i]) (auto simp: Let_def Fifo_Next_Cons)
  qed
qed

lemma iter_Next_Fifo_Some:
  assumes "iter_Next FifoScheduler_ops pi st = (Some t, pi', st')"
  shows "\<exists>j < length (partitions pi).
           (\<forall>k < j. elements (pvalue (partitions pi ! ((pos pi + k) mod length (partitions pi)))) = [])
         \<and> elements (pvalue (partitions pi ! ((pos pi + j) mod length (partitions pi))))
             = Task_of t
               # elements (pvalue (partitions pi' ! ((pos pi + j) mod length (partitions pi))))
         \<and> pos pi' = (pos pi + j + 1) mod length (partitions pi)"
proof -
  from assms have p: "probe FifoScheduler_ops pi 0 (length (partitions pi)) st = (Some t, pi', st')"
    by (simp add: iter_Next_def)
  then have "0 < length (partitions pi)"
    by (cases "length (partitions pi)") auto
  from probe_Fifo_Some [OF p this] show ?thesis by auto
qed

lemma descending_head:
  assumes "descending (pi # rest)" and "i < length (pi # rest)"
  shows "\<not> priority pi < priority ((pi # rest) ! i)"
proof (cases i)
  case 0
  then show ?thesis by simp
next
  case (Suc k)
  with assms(2) have "rest ! k \<in> set rest" by simp
  with assms(1) have "priority (rest ! k) < priority pi" by simp
  with Suc show ?thesis by simp
qed

lemma Next_levels_Fifo_Some:
  "descending L \<Longrightarrow> Next_levels FifoScheduler_ops L st = (Some t, L', st') \<Longrightarrow>
     \<exists>j < length L.
       (\<exists>prt \<in> set (partitions (L ! j)). \<exists>rest. elements (pvalue prt) = Task_of t # rest)
     \<and> (\<forall>i < length L. priority (L ! j) < priority (L ! i) \<longrightarrow>
           (\<forall>prt \<in> set (partitions (L ! i)). elements (pvalue prt) = []))"
proof (induction L arbitrary: L')
  case Nil
  then show ?case by simp
next
  case (Cons pi rest)
  obtain x pi1 st1 where it: "iter_Next FifoScheduler_ops pi st = (x, pi1, st1)"
    by (cases "iter_Next FifoScheduler_ops pi st") auto
  show ?case
  proof (cases x)
    case (Some u)
    with Cons.prems(2) it have u: "u = t" by auto
    from iter_Next_Fifo_Some [of pi st t pi1 st1] it Some u obtain j where
      j: "j < length (partitions pi)"
         "elements (pvalue (partitions pi ! ((pos pi + j) mod length (partitions pi))))
             = Task_of t
               # elements (pvalue (partitions pi1 ! ((pos pi + j) mod length (partitions pi))))"
      by blast
    from j(1) have "0 < length (partitions pi)" by arith
    then have "(pos pi + j) mod length (partitions pi) < length (partitions pi)"
      by (rule mod_less_divisor)
    then have "partitions pi ! ((pos pi + j) mod length (partitions pi)) \<in> set (partitions pi)"
      by (rule nth_mem)
    with j(2) have served:
      "\<exists>prt \<in> set (partitions ((pi # rest) ! 0)). \<exists>r. elements (pvalue prt) = Task_of t # r"
      by auto
    have "\<forall>i < length (pi # rest). priority ((pi # rest) ! 0) < priority ((pi # rest) ! i) \<longrightarrow>
           (\<forall>prt \<in> set (partitions ((pi # rest) ! i)). elements (pvalue prt) = [])"
      using descending_head [OF Cons.prems(1)] by simp
    with served show ?thesis
      by (intro exI [of _ 0]) simp
  next
    case None
    with it have same: "pi1 = pi" "st1 = st"
      using probe_Fifo_None [of pi 0 "length (partitions pi)" st pi1 st1]
      by (simp_all add: iter_Next_def)
    from it None have empty: "\<forall>prt \<in> set (partitions pi). elements (pvalue prt) = []"
      using iter_Next_Fifo_None_empty by blast
    obtain r2 rest' st2 where nl: "Next_levels FifoScheduler_ops rest st = (r2, rest', st2)"
      by (cases "Next_levels FifoScheduler_ops rest st") auto
    with Cons.prems(2) it None same have r2: "r2 = Some t" "st2 = st'" by auto
    from Cons.prems(1) have "descending rest" by simp
    from Cons.IH [OF this, of rest'] nl r2 obtain j where
      j: "j < length rest"
         "\<exists>prt \<in> set (partitions (rest ! j)). \<exists>r. elements (pvalue prt) = Task_of t # r"
         "\<forall>i < length rest. priority (rest ! j) < priority (rest ! i) \<longrightarrow>
           (\<forall>prt \<in> set (partitions (rest ! i)). elements (pvalue prt) = [])"
      by blast
    have "\<forall>i < length (pi # rest).
            priority ((pi # rest) ! Suc j) < priority ((pi # rest) ! i) \<longrightarrow>
           (\<forall>prt \<in> set (partitions ((pi # rest) ! i)). elements (pvalue prt) = [])"
    proof (intro allI impI)
      fix i assume i: "i < length (pi # rest)"
        and lt: "priority ((pi # rest) ! Suc j) < priority ((pi # rest) ! i)"
      show "\<forall>prt \<in> set (partitions ((pi # rest) ! i)). elements (pvalue prt) = []"
      proof (cases i)
        case 0
        with empty show ?thesis by simp
      next
        case (Suc i')
        with i lt j(3) show ?thesis by simp
      qed
    qed
    with j(1) j(2) show ?thesis
      by (intro exI [of _ "Suc j"]) simp
  qed
qed

lemmas Put_eval =
  PartitionedScheduler_Put1_def PartitionedScheduler_Contains_def iter_Put_def
  NewPartitionedScheduler_def schedulerFactory_def newIter_def
  FifoScheduler_ops_def FifoScheduler_Put_def NewFifoScheduler_def Let_def word_le_nat_alt
  word_less_nat_alt Go_rem_def

lemmas Next_eval =
  PartitionedScheduler_Next_def iter_Next_def FifoScheduler_ops_def FifoScheduler_Next_def
  Let_def



lemma priScheduler_eq:
  "priScheduler =
     \<lparr>partitioner = priPartitioner,
      prioritizedPartitions =
        [\<lparr>priority = 3,
          partitions =
            [\<lparr>key = ''rem_0'',
              pvalue = \<lparr>elements = [testTask 3, testTask 6], elementMap = {''3'', ''6''},
                         maxUnusedSliceSpace = 16, unusedSliceCount = 2\<rparr>,
              cache = {''3'', ''6''}\<rparr>],
          pos = 0\<rparr>,
         \<lparr>priority = 2,
          partitions =
            [\<lparr>key = ''rem_1'',
              pvalue = \<lparr>elements = [testTask 1, testTask 4], elementMap = {''1'', ''4''},
                         maxUnusedSliceSpace = 16, unusedSliceCount = 2\<rparr>,
              cache = {''1'', ''4''}\<rparr>],
          pos = 0\<rparr>,
         \<lparr>priority = 1,
          partitions =
            [\<lparr>key = ''rem_2'',
              pvalue = \<lparr>elements = [testTask 2, testTask 5], elementMap = {''2'', ''5''},
                         maxUnusedSliceSpace = 16, unusedSliceCount = 2\<rparr>,
              cache = {''2'', ''5''}\<rparr>],
          pos = 0\<rparr>]\<rparr>"
  by (simp add: priScheduler_def priPartitioner_def testTask_ids Put_eval insert_commute)

lemma priScheduler_Nexts:
  "fst (PartitionedScheduler_Nexts FifoScheduler_ops 7 priScheduler no_pools) =
     [Some (defaultScheduledTask (testTask 3)), Some (defaultScheduledTask (testTask 6)),
      Some (defaultScheduledTask (testTask 1)), Some (defaultScheduledTask (testTask 4)),
      Some (defaultScheduledTask (testTask 2)), Some (defaultScheduledTask (testTask 5)), None]"
  by (simp add: priScheduler_eq numeral_eq_Suc Next_eval testTask_ids)

lemmas lane_eval =
  lane_ops_def ResourceManagedScheduler_ops_def ResourceManagedScheduler_Put_def
  ResourceManagedScheduler_Next_def ResourceManagedScheduler_Contains_def
  NewResourceManagedScheduler_def NewResourceVectorPool_def laneFactory_def
  lanePartitioner_def no_pools_def

lemma lane_start_eq:
  "lane_start =
     (\<lparr>partitioner = lanePartitioner,
       prioritizedPartitions =
         [\<lparr>priority = 2,
           partitions =
             [\<lparr>key = ''hi'',
               pvalue = \<lparr>waiting = None,
                          underlying = \<lparr>elements = [testTask 1, testTask 3],
                                         elementMap = {''1'', ''3''},
                                         maxUnusedSliceSpace = 16, unusedSliceCount = 2\<rparr>,
                          rpool = 0, resourceCalculator = calc_one\<rparr>,
               cache = {''1'', ''3''}\<rparr>],
           pos = 0\<rparr>,
          \<lparr>priority = 1,
           partitions =
             [\<lparr>key = ''lo'',
               pvalue = \<lparr>waiting = None,
                          underlying = \<lparr>elements = [testTask 2], elementMap = {''2''},
                                         maxUnusedSliceSpace = 16, unusedSliceCount = 1\<rparr>,
                          rpool = 1, resourceCalculator = calc_one\<rparr>,
               cache = {''2''}\<rparr>],
           pos = 0\<rparr>]\<rparr>,
      pools_of [[1], [1]])"
  by (auto simp: lane_start_def testTask_ids Put_eval lane_eval insert_commute pools_of_def
      fun_eq_iff less_Suc_eq)

lemma lane_Request:
  "Request 0 (calc_one t) (pools_of [[1], [1]])
     = (Some \<lparr>pool = Some 0, resources = [1]\<rparr>, pools_of [[0], [1]])"
  "Request 0 (calc_one t) (pools_of [[0], [1]]) = (None, pools_of [[0], [1]])"
  "Request (Suc 0) (calc_one t) (pools_of [[0], [1]])
     = (Some \<lparr>pool = Some 1, resources = [1]\<rparr>, pools_of [[0], [0]])"
  by (auto simp: Request_def calc_one_def NewResourceVectorRequest_def word_sless_alt
      pools_of_def fun_eq_iff less_Suc_eq)

text \<open>
  C5, where it fails as stated. Tasks 1 and 3 are in the lane \<open>hi\<close> (priority 2), task 2 in
  the lane \<open>lo\<close> (priority 1). The first \<open>Next\<close> returns task 1 with the whole pool of its
  lane. The second draws task 3, is denied, parks it and returns nothing from \<open>hi\<close>; so
  \<open>Next\<close> returns task 2, of priority 1, while task 3, of priority 2, remains contained.
\<close>

theorem starved_lane_passed_over:
  "map priority (prioritizedPartitions (fst lane_start)) = [2, 1]
   \<and> fst (snd (lanePartitioner (testTask 2))) = 1
   \<and> fst (snd (lanePartitioner (testTask 3))) = 2
   \<and> fst (PartitionedScheduler_Nexts lane_ops 2 (fst lane_start) (snd lane_start))
       = [Some (resourceTask (testTask 1) \<lparr>pool = Some 0, resources = [1]\<rparr>),
          Some (resourceTask (testTask 2) \<lparr>pool = Some 1, resources = [1]\<rparr>)]
   \<and> PartitionedScheduler_Contains
         (fst (snd (PartitionedScheduler_Nexts lane_ops 2 (fst lane_start) (snd lane_start))))
         (testTask 3)
   \<and> waiting (pvalue (hd (partitions (hd (prioritizedPartitions
         (fst (snd (PartitionedScheduler_Nexts lane_ops 2 (fst lane_start) (snd lane_start)))))))))
       = Some (testTask 3)"
  by (simp add: lane_start_eq numeral_2_eq_2 PartitionedScheduler_Next_def iter_Next_def
      lane_ops_def ResourceManagedScheduler_ops_def ResourceManagedScheduler_Next_def
      FifoScheduler_ops_def FifoScheduler_Next_def lane_Request testTask_ids
      PartitionedScheduler_Contains_def lanePartitioner_def Go_rem_def)

lemma noPriScheduler_eq:
  "noPriScheduler =
     \<lparr>partitioner = noPriPartitioner,
      prioritizedPartitions =
        [\<lparr>priority = 1,
          partitions =
            [\<lparr>key = ''odd'',
              pvalue = \<lparr>elements = [testTask 1, testTask 3, testTask 5],
                         elementMap = {''1'', ''3'', ''5''},
                         maxUnusedSliceSpace = 16, unusedSliceCount = 3\<rparr>,
              cache = {''1'', ''3'', ''5''}\<rparr>,
             \<lparr>key = ''even'',
              pvalue = \<lparr>elements = [testTask 2, testTask 4],
                         elementMap = {''2'', ''4''},
                         maxUnusedSliceSpace = 16, unusedSliceCount = 2\<rparr>,
              cache = {''2'', ''4''}\<rparr>],
          pos = 0\<rparr>]\<rparr>"
  by (simp add: noPriScheduler_def noPriPartitioner_def testTask_ids Put_eval insert_commute)


lemma noPriScheduler_drained_eq:
  "noPriScheduler_drained =
     \<lparr>partitioner = noPriPartitioner,
      prioritizedPartitions =
        [\<lparr>priority = 1,
          partitions =
            [\<lparr>key = ''odd'',
              pvalue = \<lparr>elements = [], elementMap = {},
                         maxUnusedSliceSpace = 16, unusedSliceCount = 3\<rparr>,
              cache = {}\<rparr>,
             \<lparr>key = ''even'',
              pvalue = \<lparr>elements = [], elementMap = {},
                         maxUnusedSliceSpace = 16, unusedSliceCount = 2\<rparr>,
              cache = {}\<rparr>],
          pos = 1\<rparr>]\<rparr>"
  by (simp add: noPriScheduler_drained_def noPriScheduler_eq numeral_eq_Suc Next_eval
      testTask_ids)

lemma priScheduler_after2_eq:
  "priScheduler_after2 =
     \<lparr>partitioner = priPartitioner,
      prioritizedPartitions =
        [\<lparr>priority = 3,
          partitions =
            [\<lparr>key = ''rem_0'',
              pvalue = \<lparr>elements = [], elementMap = {},
                         maxUnusedSliceSpace = 16, unusedSliceCount = 2\<rparr>,
              cache = {}\<rparr>],
          pos = 0\<rparr>,
         \<lparr>priority = 2,
          partitions =
            [\<lparr>key = ''rem_1'',
              pvalue = \<lparr>elements = [testTask 1, testTask 4], elementMap = {''1'', ''4''},
                         maxUnusedSliceSpace = 16, unusedSliceCount = 2\<rparr>,
              cache = {''1'', ''4''}\<rparr>],
          pos = 0\<rparr>,
         \<lparr>priority = 1,
          partitions =
            [\<lparr>key = ''rem_2'',
              pvalue = \<lparr>elements = [testTask 2, testTask 5], elementMap = {''2'', ''5''},
                         maxUnusedSliceSpace = 16, unusedSliceCount = 2\<rparr>,
              cache = {''2'', ''5''}\<rparr>],
          pos = 0\<rparr>]\<rparr>"
  by (simp add: priScheduler_after2_def priScheduler_eq numeral_eq_Suc Next_eval testTask_ids)

lemma descending_distinct: "sorted_wrt (>) (xs :: 64 word list) \<Longrightarrow> distinct xs"
  by (induction xs) auto

text \<open>
  C5, as the code has it. In every partitioned scheduler reached from a new one by
  \<open>Put\<close>, \<open>Next\<close> and \<open>Remove\<close> calls the levels are sorted strictly descending by
  priority, so no two levels share a priority; the calls keep any scheduler so sorted,
  and in a sorted list every earlier level has the greater priority. \<open>Next\<close> serves the
  lower levels \<open>lo\<close> only when the higher levels \<open>hi\<close> yield nothing: if \<open>hi\<close> yields a
  task, that task is returned and \<open>lo\<close> is not touched; if \<open>hi\<close> yields nothing, the
  result is that of \<open>lo\<close>. A level yields nothing when each of its partitions returns
  nothing from \<open>Next\<close>, whether or not tasks remain in them. Over FIFO sub-schedulers
  that is emptiness: the task returned was at the head of a partition of some level, and
  every level of greater priority holds no task.
\<close>

theorem priority_order:
  "descending (prioritizedPartitions
      (fst (fold (PartitionedScheduler_apply ops) xs (NewPartitionedScheduler part, st))))
   \<and> distinct (map priority (prioritizedPartitions
      (fst (fold (PartitionedScheduler_apply ops) xs (NewPartitionedScheduler part, st)))))
   \<and> (descending (prioritizedPartitions p) \<longrightarrow>
        descending (prioritizedPartitions (fst (fold (PartitionedScheduler_apply ops) xs (p, st)))))
   \<and> (descending (hi @ lo) \<longrightarrow> (\<forall>x \<in> set hi. \<forall>y \<in> set lo. priority y < priority x))
   \<and> (Next_levels ops hi st = (Some t, hi', st') \<longrightarrow>
        Next_levels ops (hi @ lo) st = (Some t, hi' @ lo, st'))
   \<and> (Next_levels ops hi st = (None, hi', st_hi) \<and> Next_levels ops lo st_hi = (r, lo', st_lo) \<longrightarrow>
        Next_levels ops (hi @ lo) st = (r, hi' @ lo', st_lo))
   \<and> (descending L \<and> Next_levels FifoScheduler_ops L st = (Some t, L', st') \<longrightarrow>
        (\<exists>j < length L.
           (\<exists>prt \<in> set (partitions (L ! j)). \<exists>rest. elements (pvalue prt) = Task_of t # rest)
         \<and> (\<forall>i < length L. priority (L ! j) < priority (L ! i) \<longrightarrow>
               (\<forall>prt \<in> set (partitions (L ! i)). elements (pvalue prt) = []))))"
proof -
  have new: "descending (prioritizedPartitions (fst (NewPartitionedScheduler part, st)))"
    by (simp add: NewPartitionedScheduler_def)
  note a = run_descending [OF new, of ops xs]
  have b: "descending (prioritizedPartitions p) \<longrightarrow>
        descending (prioritizedPartitions (fst (fold (PartitionedScheduler_apply ops) xs (p, st))))"
    using run_descending [of "(p, st)" ops xs] by simp
  have c: "descending (hi @ lo) \<longrightarrow> (\<forall>x \<in> set hi. \<forall>y \<in> set lo. priority y < priority x)"
    by (simp add: sorted_wrt_append)
  have d: "Next_levels ops hi st = (Some t, hi', st') \<longrightarrow>
        Next_levels ops (hi @ lo) st = (Some t, hi' @ lo, st')"
    by (simp add: Next_levels_append)
  have e: "Next_levels ops hi st = (None, hi', st_hi) \<and> Next_levels ops lo st_hi = (r, lo', st_lo) \<longrightarrow>
        Next_levels ops (hi @ lo) st = (r, hi' @ lo', st_lo)"
    by (simp add: Next_levels_append)
  have f: "descending L \<and> Next_levels FifoScheduler_ops L st = (Some t, L', st') \<longrightarrow>
        (\<exists>j < length L.
           (\<exists>prt \<in> set (partitions (L ! j)). \<exists>rest. elements (pvalue prt) = Task_of t # rest)
         \<and> (\<forall>i < length L. priority (L ! j) < priority (L ! i) \<longrightarrow>
               (\<forall>prt \<in> set (partitions (L ! i)). elements (pvalue prt) = [])))"
    using Next_levels_Fifo_Some [of L st t L' st'] by blast
  from a descending_distinct [OF a] b c d e f show ?thesis by blast
qed

theorem priority_order_witness:
  "descending (prioritizedPartitions priScheduler_after2)
   \<and> map priority (prioritizedPartitions
        (fst (fold (PartitionedScheduler_apply FifoScheduler_ops) [Op_Put [testTask 9], Op_Next]
               (priScheduler_after2, no_pools)))) = [3, 2, 1]
   \<and> descending (take 1 (prioritizedPartitions priScheduler) @ drop 1 (prioritizedPartitions priScheduler))
   \<and> priority (prioritizedPartitions priScheduler ! 1) < priority (prioritizedPartitions priScheduler ! 0)
   \<and> fst (Next_levels FifoScheduler_ops (take 1 (prioritizedPartitions priScheduler)) no_pools)
       = Some (defaultScheduledTask (testTask 3))
   \<and> fst (Next_levels FifoScheduler_ops (prioritizedPartitions priScheduler) no_pools)
       = Some (defaultScheduledTask (testTask 3))
   \<and> fst (Next_levels FifoScheduler_ops (take 1 (prioritizedPartitions priScheduler_after2)) no_pools)
       = None
   \<and> fst (Next_levels FifoScheduler_ops (prioritizedPartitions priScheduler_after2) no_pools)
       = Some (defaultScheduledTask (testTask 1))
   \<and> (\<exists>j < length (prioritizedPartitions priScheduler_after2).
         (\<exists>prt \<in> set (partitions (prioritizedPartitions priScheduler_after2 ! j)).
            \<exists>rest. elements (pvalue prt) = testTask 1 # rest))"
proof -
  let ?L = "prioritizedPartitions priScheduler"
  let ?M = "prioritizedPartitions priScheduler_after2"
  let ?ops = "FifoScheduler_ops"
  have dL: "descending (take 1 ?L @ drop 1 ?L)"
    by (simp add: priScheduler_eq word_less_nat_alt)
  have dM: "descending ?M"
    by (simp add: priScheduler_after2_eq word_less_nat_alt)
  obtain hi' where hi: "Next_levels ?ops (take 1 ?L) no_pools
      = (Some (defaultScheduledTask (testTask 3)), hi', no_pools)"
    by (simp add: priScheduler_eq Next_eval)
  obtain hi2 where hi2: "Next_levels ?ops (take 1 ?M) no_pools = (None, hi2, no_pools)"
    by (simp add: priScheduler_after2_eq Next_eval)
  obtain lo' where lo: "Next_levels ?ops (drop 1 ?M) no_pools
      = (Some (defaultScheduledTask (testTask 1)), lo', no_pools)"
    by (simp add: priScheduler_after2_eq Next_eval)
  have 1: "map priority (prioritizedPartitions
        (fst (fold (PartitionedScheduler_apply ?ops) [Op_Put [testTask 9], Op_Next]
               (priScheduler_after2, no_pools)))) = [3, 2, 1]"
    by (simp add: priScheduler_after2_eq Next_eval Put_eval priPartitioner_def testTask_digit
        digit_def)
  have 2: "priority (?L ! 1) < priority (?L ! 0)"
    using priority_order [where hi = "take 1 ?L" and lo = "drop 1 ?L"] dL
    by (simp add: priScheduler_eq)
  have 3: "Next_levels ?ops (take 1 ?L @ drop 1 ?L) no_pools
      = (Some (defaultScheduledTask (testTask 3)), hi' @ drop 1 ?L, no_pools)"
    using priority_order [where ops = ?ops and hi = "take 1 ?L" and lo = "drop 1 ?L"
        and st = no_pools and t = "defaultScheduledTask (testTask 3)" and hi' = hi'
        and st' = no_pools] hi
    by blast
  have 4: "Next_levels ?ops (take 1 ?M @ drop 1 ?M) no_pools
      = (Some (defaultScheduledTask (testTask 1)), hi2 @ lo', no_pools)"
    using priority_order [where ops = ?ops and hi = "take 1 ?M" and lo = "drop 1 ?M"
        and st = no_pools and hi' = hi2 and st_hi = no_pools
        and r = "Some (defaultScheduledTask (testTask 1))" and lo' = lo' and st_lo = no_pools]
      hi2 lo
    by blast
  have M4: "Next_levels ?ops ?M no_pools
      = (Some (defaultScheduledTask (testTask 1)), hi2 @ lo', no_pools)"
    using 4 by simp
  note last = priority_order [where L = ?M and st = no_pools
        and t = "defaultScheduledTask (testTask 1)" and L' = "hi2 @ lo'" and st' = no_pools,
        THEN conjunct2, THEN conjunct2, THEN conjunct2, THEN conjunct2, THEN conjunct2,
        THEN conjunct2, rule_format, OF conjI, OF dM M4]
  have 5: "\<exists>j < length ?M.
         (\<exists>prt \<in> set (partitions (?M ! j)). \<exists>rest. elements (pvalue prt) = testTask 1 # rest)"
    using last by auto
  from dM 1 dL 2 hi 3 hi2 4 5 show ?thesis
    by (simp del: sorted_wrt_map)
qed



theorem Next_nothing_frame_witness:
  "PartitionedScheduler_Next FifoScheduler_ops noPriScheduler_drained no_pools
     = (None, noPriScheduler_drained, no_pools)
   \<and> map pos (prioritizedPartitions noPriScheduler_drained) = [1]
   \<and> map (\<lambda>pi. map key (partitions pi)) (prioritizedPartitions noPriScheduler_drained)
       = [[''odd'', ''even'']]"
proof -
  obtain p' where nx: "PartitionedScheduler_Next FifoScheduler_ops noPriScheduler_drained no_pools
      = (None, p', no_pools)"
    by (simp add: noPriScheduler_drained_eq Next_eval)
  from Next_nothing_frame [where q = noPriScheduler_drained and st = no_pools and q' = p'
      and st' = no_pools, THEN conjunct2, rule_format, OF nx]
  have same: "p' = noPriScheduler_drained" by simp
  from Next_nothing_frame [where ops = FifoScheduler_ops and p = noPriScheduler_drained
      and st = no_pools and p' = p' and st' = no_pools, THEN conjunct1, rule_format, OF nx]
  have frame: "map pos (prioritizedPartitions p') = map pos (prioritizedPartitions noPriScheduler_drained)"
    "map (\<lambda>pi. map key (partitions pi)) (prioritizedPartitions p')
          = map (\<lambda>pi. map key (partitions pi)) (prioritizedPartitions noPriScheduler_drained)"
    by simp_all
  have v: "map pos (prioritizedPartitions noPriScheduler_drained) = [1]"
    "map (\<lambda>pi. map key (partitions pi)) (prioritizedPartitions noPriScheduler_drained)
       = [[''odd'', ''even'']]"
    by (simp_all add: noPriScheduler_drained_eq)
  from nx same v show ?thesis by simp
qed

lemma lane_hi_start_eq:
  "lane_hi_start =
     (\<lparr>partitioner = lanePartitioner,
       prioritizedPartitions =
         [\<lparr>priority = 2,
           partitions =
             [\<lparr>key = ''hi'',
               pvalue = \<lparr>waiting = None,
                          underlying = \<lparr>elements = [testTask 1, testTask 3],
                                         elementMap = {''1'', ''3''},
                                         maxUnusedSliceSpace = 16, unusedSliceCount = 2\<rparr>,
                          rpool = 0, resourceCalculator = calc_one\<rparr>,
               cache = {''1'', ''3''}\<rparr>],
           pos = 0\<rparr>]\<rparr>,
      pools_of [[1]])"
  by (auto simp: lane_hi_start_def testTask_ids Put_eval lane_eval insert_commute pools_of_def
      fun_eq_iff)

lemma lane_hi_Request:
  "Request 0 (calc_one t) (pools_of [[1]])
     = (Some \<lparr>pool = Some 0, resources = [1]\<rparr>, pools_of [[0]])"
  "Request 0 (calc_one t) (pools_of [[0]]) = (None, pools_of [[0]])"
  by (auto simp: Request_def calc_one_def NewResourceVectorRequest_def word_sless_alt
      pools_of_def fun_eq_iff)

lemmas lane_Next_eval =
  PartitionedScheduler_Next_def iter_Next_def lane_ops_def ResourceManagedScheduler_ops_def
  ResourceManagedScheduler_Next_def FifoScheduler_ops_def FifoScheduler_Next_def
  lane_hi_Request testTask_ids

lemma lane_hi_served_run:
  "PartitionedScheduler_Next lane_ops (fst lane_hi_start) (snd lane_hi_start) =
     (Some (resourceTask (testTask 1) \<lparr>pool = Some 0, resources = [1]\<rparr>),
      \<lparr>partitioner = lanePartitioner,
       prioritizedPartitions =
         [\<lparr>priority = 2,
           partitions =
             [\<lparr>key = ''hi'',
               pvalue = \<lparr>waiting = None,
                          underlying = \<lparr>elements = [testTask 3], elementMap = {''3''},
                                         maxUnusedSliceSpace = 16, unusedSliceCount = 2\<rparr>,
                          rpool = 0, resourceCalculator = calc_one\<rparr>,
               cache = {''3''}\<rparr>],
           pos = 0\<rparr>]\<rparr>,
      pools_of [[0]])"
  by (simp add: lane_hi_start_eq lane_Next_eval)

lemma lane_hi_served_eq:
  "lane_hi_served =
     (\<lparr>partitioner = lanePartitioner,
       prioritizedPartitions =
         [\<lparr>priority = 2,
           partitions =
             [\<lparr>key = ''hi'',
               pvalue = \<lparr>waiting = None,
                          underlying = \<lparr>elements = [testTask 3], elementMap = {''3''},
                                         maxUnusedSliceSpace = 16, unusedSliceCount = 2\<rparr>,
                          rpool = 0, resourceCalculator = calc_one\<rparr>,
               cache = {''3''}\<rparr>],
           pos = 0\<rparr>]\<rparr>,
      pools_of [[0]])"
  unfolding lane_hi_served_def lane_hi_served_run by simp

lemma lane_hi_starved_run:
  "PartitionedScheduler_Next lane_ops (fst lane_hi_served) (snd lane_hi_served) =
     (None,
      \<lparr>partitioner = lanePartitioner,
       prioritizedPartitions =
         [\<lparr>priority = 2,
           partitions =
             [\<lparr>key = ''hi'',
               pvalue = \<lparr>waiting = Some (testTask 3),
                          underlying = \<lparr>elements = [], elementMap = {},
                                         maxUnusedSliceSpace = 16, unusedSliceCount = 2\<rparr>,
                          rpool = 0, resourceCalculator = calc_one\<rparr>,
               cache = {''3''}\<rparr>],
           pos = 0\<rparr>]\<rparr>,
      pools_of [[0]])"
  by (simp add: lane_hi_served_eq lane_Next_eval)

lemma lane_hi_starved_eq:
  "lane_hi_starved =
     (\<lparr>partitioner = lanePartitioner,
       prioritizedPartitions =
         [\<lparr>priority = 2,
           partitions =
             [\<lparr>key = ''hi'',
               pvalue = \<lparr>waiting = Some (testTask 3),
                          underlying = \<lparr>elements = [], elementMap = {},
                                         maxUnusedSliceSpace = 16, unusedSliceCount = 2\<rparr>,
                          rpool = 0, resourceCalculator = calc_one\<rparr>,
               cache = {''3''}\<rparr>],
           pos = 0\<rparr>]\<rparr>,
      pools_of [[0]])"
  unfolding lane_hi_starved_def lane_hi_starved_run by simp

lemmas lane_Remove_eval =
  PartitionedScheduler_Remove_def PartitionedScheduler_Size_def lane_ops_def
  ResourceManagedScheduler_ops_def ResourceManagedScheduler_Remove_def
  ResourceManagedScheduler_Size_def FifoScheduler_ops_def FifoScheduler_Remove_def
  FifoScheduler_Size_def testTask_ids

text \<open>
  C10, where it fails as stated. Tasks 1 and 3 are in one lane, a resource-managed
  scheduler with a pool of \<open>[1]\<close>; the first \<open>Next\<close> returned task 1 with the whole pool.
  The second \<open>Next\<close> returns nothing, yet the scheduler is not what it was: the lane
  has popped task 3 from its queue, dropped it from its index and parked it. The
  partitioned scheduler answers differently afterwards: \<open>Remove\<close> of task 3 leaves
  \<open>Size\<close> 0 before that \<open>Next\<close> and 1 after it.
\<close>

theorem starved_lane_parks_on_nothing:
  "fst (PartitionedScheduler_Next lane_ops (fst lane_hi_served) (snd lane_hi_served)) = None
   \<and> fst lane_hi_starved \<noteq> fst lane_hi_served
   \<and> elements (underlying (pvalue (hd (partitions (hd (prioritizedPartitions
         (fst lane_hi_served))))))) = [testTask 3]
   \<and> elementMap (underlying (pvalue (hd (partitions (hd (prioritizedPartitions
         (fst lane_hi_served))))))) = {''3''}
   \<and> waiting (pvalue (hd (partitions (hd (prioritizedPartitions (fst lane_hi_served))))))
       = None
   \<and> elements (underlying (pvalue (hd (partitions (hd (prioritizedPartitions
         (fst lane_hi_starved))))))) = []
   \<and> elementMap (underlying (pvalue (hd (partitions (hd (prioritizedPartitions
         (fst lane_hi_starved))))))) = {}
   \<and> waiting (pvalue (hd (partitions (hd (prioritizedPartitions (fst lane_hi_starved))))))
       = Some (testTask 3)
   \<and> PartitionedScheduler_Size lane_ops
         (snd (PartitionedScheduler_Remove lane_ops (fst lane_hi_served) ''3'')) = 0
   \<and> PartitionedScheduler_Size lane_ops
         (snd (PartitionedScheduler_Remove lane_ops (fst lane_hi_starved) ''3'')) = 1"
proof -
  have returns_nothing: "fst (PartitionedScheduler_Next lane_ops (fst lane_hi_served) (snd lane_hi_served)) = None"
    unfolding lane_hi_starved_run by simp
  have differ: "fst lane_hi_starved \<noteq> fst lane_hi_served"
    unfolding lane_hi_served_eq lane_hi_starved_eq by simp
  have fields: "elements (underlying (pvalue (hd (partitions (hd (prioritizedPartitions
         (fst lane_hi_served))))))) = [testTask 3]"
    "elementMap (underlying (pvalue (hd (partitions (hd (prioritizedPartitions
         (fst lane_hi_served))))))) = {''3''}"
    "waiting (pvalue (hd (partitions (hd (prioritizedPartitions (fst lane_hi_served)))))) = None"
    "elements (underlying (pvalue (hd (partitions (hd (prioritizedPartitions
         (fst lane_hi_starved))))))) = []"
    "elementMap (underlying (pvalue (hd (partitions (hd (prioritizedPartitions
         (fst lane_hi_starved))))))) = {}"
    "waiting (pvalue (hd (partitions (hd (prioritizedPartitions (fst lane_hi_starved))))))
       = Some (testTask 3)"
    unfolding lane_hi_served_eq lane_hi_starved_eq by simp_all
  have size_before: "PartitionedScheduler_Size lane_ops
         (snd (PartitionedScheduler_Remove lane_ops (fst lane_hi_served) ''3'')) = 0"
    unfolding lane_hi_served_eq by (simp add: lane_Remove_eval)
  have size_after: "PartitionedScheduler_Size lane_ops
         (snd (PartitionedScheduler_Remove lane_ops (fst lane_hi_starved) ''3'')) = 1"
    unfolding lane_hi_starved_eq by (simp add: lane_Remove_eval)
  show ?thesis
    by (intro conjI; (rule returns_nothing | rule differ | rule fields | rule size_before |
        rule size_after))
qed

end
